theory Spec2Isabelle
  imports Main "HOL-Library.Word" "HOL-Library.Signed_Division" "HOL-Library.Char_ord"
begin

unbundle bit_operations_syntax

section \<open>Shared data model\<close>

text \<open>
  Calls into collaborators whose code is not part of the sources (the display service,
  \<open>disturb\<close>, \<open>take_hit\<close>, \<open>updateMonsters\<close>, ...) are recorded, in call order, as
  events in a log carried by the state. What those collaborators do to their own
  data is outside this development.
\<close>

datatype event =
    Msg string
  | Prt_chp | Prt_mhp | Prt_cmana | Prt_map | Prt_blind | Prt_confused
  | Prt_afraid | Prt_poisoned | Prt_pac | Prt_state
  | Disturb int int
  | UpdateMonsters bool
  | Change_speed int
  | Take_hit int string
  | Calc_bonuses
  | Rest_off
  | Bell
  | PutString string int int
  | PutNumber int int int
  | Put_qio | Refresh | Wrefresh_curscr | Moriaterm
  | Save_char

text \<open>
  The player structure \<open>py\<close>, restricted to the fields read or written by the
  routines below. The status mask is a 32-bit word. The numeric fields are integers;
  where the code stores into a 16-bit field or computes in \<open>int32_t\<close> and the result
  can leave the range, the wrap-around is written out with \<open>int16\<close>, \<open>uint16\<close> and
  \<open>int32\<close>. The countdown timers are only ever compared with small constants,
  decremented while positive, or assigned 0 or 1, so they need no wrap-around.
\<close>

definition int16 :: "int \<Rightarrow> int" where
  "int16 x = (x + 32768) mod 65536 - 32768"

definition uint16 :: "int \<Rightarrow> int" where
  "uint16 x = x mod 65536"

definition int32 :: "int \<Rightarrow> int" where
  "int32 x = (x + 2147483648) mod 4294967296 - 2147483648"

text \<open>\<open>x >> 16\<close> on a signed value: the arithmetic shift, rounding down.\<close>

definition asr16 :: "int \<Rightarrow> int" where
  "asr16 x = x div 65536"

record player =
  status :: "32 word"
  blind :: int
  confused :: int
  afraid :: int
  poisoned :: int
  fast :: int
  slow :: int
  hero :: int
  shero :: int
  invuln :: int
  blessed :: int
  detect_inv :: int
  tim_infra :: int
  rest :: int
  see_inv :: bool
  see_infra :: int
  regenerate :: bool
  mhp :: int
  chp :: int
  chp_frac :: int
  mana :: int
  cmana :: int
  cmana_frac :: int
  bth :: int
  bthb :: int
  pac :: int
  dis_ac :: int
  log :: "event list"

text \<open>
  Modelled from the spec: the header defining the status masks is not among the
  sources. The spec describes the status bitmask as a set of independent boolean
  flags, so each mask is a single bit of its own.
\<close>

definition PY_BLIND :: "32 word" where "PY_BLIND = 0x00000004"
definition PY_CONFUSED :: "32 word" where "PY_CONFUSED = 0x00000008"
definition PY_FEAR :: "32 word" where "PY_FEAR = 0x00000010"
definition PY_POISONED :: "32 word" where "PY_POISONED = 0x00000020"
definition PY_FAST :: "32 word" where "PY_FAST = 0x00000040"
definition PY_SLOW :: "32 word" where "PY_SLOW = 0x00000080"
definition PY_SEARCH :: "32 word" where "PY_SEARCH = 0x00000100"
definition PY_INVULN :: "32 word" where "PY_INVULN = 0x00001000"
definition PY_HERO :: "32 word" where "PY_HERO = 0x00002000"
definition PY_SHERO :: "32 word" where "PY_SHERO = 0x00004000"
definition PY_BLESSED :: "32 word" where "PY_BLESSED = 0x00008000"
definition PY_DET_INV :: "32 word" where "PY_DET_INV = 0x00010000"
definition PY_TIM_INFRA :: "32 word" where "PY_TIM_INFRA = 0x00020000"

text \<open>
  Modelled from the spec: \<open>MAX_SHORT\<close> is defined in an absent header; the spec
  calls it the representable maximum of the hit-point domain, a signed 16-bit value.
\<close>

definition MAX_SHORT :: int where "MAX_SHORT = 32767"

section \<open>Fixed-point regeneration\<close>

text \<open>
  \<open>regenhp\<close>. Each assignment of the source gives the value it assigns a name of its
  own (\<open>chp1\<close>, \<open>chp2\<close>, ... for the successive values of \<open>py.misc.chp\<close>), and the
  player is updated once at the end. The bias \<open>PLAYER_REGEN_HPBASE\<close> comes from an
  absent header and is the parameter \<open>hpbase\<close>. \<open>new_chp\<close> is an \<open>int32_t\<close>;
  \<open>>> 16\<close> on it is \<open>asr16\<close> and \<open>& 0xFFFF\<close>, its low 16 bits, is \<open>uint16\<close>.
\<close>

definition regenhp :: "int \<Rightarrow> int \<Rightarrow> player \<Rightarrow> player" where
  "regenhp hpbase percent s =
    (let old_chp = chp s;
         new_chp = int32 (int32 (mhp s * percent) + hpbase);
         chp1 = int16 (chp s + asr16 new_chp);
         chp2 = (if chp1 < 0 \<and> old_chp > 0 then MAX_SHORT else chp1);
         new_chp_frac = uint16 new_chp + chp_frac s;
         frac3 = (if new_chp_frac \<ge> 0x10000 then uint16 (new_chp_frac - 0x10000)
                  else uint16 new_chp_frac);
         chp3 = (if new_chp_frac \<ge> 0x10000 then int16 (chp2 + 1) else chp2);
         chp4 = (if chp3 \<ge> mhp s then mhp s else chp3);
         frac4 = (if chp3 \<ge> mhp s then 0 else frac3)
     in s\<lparr>chp := chp4, chp_frac := frac4,
          log := (if old_chp \<noteq> chp4 then log s @ [Prt_chp] else log s)\<rparr>)"

text \<open>
  \<open>regenmana\<close>, the same routine on the mana fields, with the bias
  \<open>PLAYER_REGEN_MNBASE\<close> as the parameter \<open>mnbase\<close>.
\<close>

definition regenmana :: "int \<Rightarrow> int \<Rightarrow> player \<Rightarrow> player" where
  "regenmana mnbase percent s =
    (let old_cmana = cmana s;
         new_mana = int32 (int32 (mana s * percent) + mnbase);
         cmana1 = int16 (cmana s + asr16 new_mana);
         cmana2 = (if cmana1 < 0 \<and> old_cmana > 0 then MAX_SHORT else cmana1);
         new_mana_frac = uint16 new_mana + cmana_frac s;
         frac3 = (if new_mana_frac \<ge> 0x10000 then uint16 (new_mana_frac - 0x10000)
                  else uint16 new_mana_frac);
         cmana3 = (if new_mana_frac \<ge> 0x10000 then int16 (cmana2 + 1) else cmana2);
         cmana4 = (if cmana3 \<ge> mana s then mana s else cmana3);
         frac4 = (if cmana3 \<ge> mana s then 0 else frac3)
     in s\<lparr>cmana := cmana4, cmana_frac := frac4,
          log := (if old_cmana \<noteq> cmana4 then log s @ [Prt_cmana] else log s)\<rparr>)"

text \<open>
  The two adjustments \<open>playerUpdateRegeneration\<close> makes to its argument before it
  regenerates: \<open>amount * 3 / 2\<close> (C division, truncating) with the regenerate flag,
  doubled while searching or resting.
\<close>

definition regen_amount :: "player \<Rightarrow> int \<Rightarrow> int" where
  "regen_amount s amount =
    (let a1 = (if regenerate s then int32 (amount * 3) sdiv 2 else amount)
     in if status s AND PY_SEARCH \<noteq> 0 \<or> rest s \<noteq> 0 then int32 (a1 * 2) else a1)"

definition playerUpdateRegeneration :: "int \<Rightarrow> int \<Rightarrow> int \<Rightarrow> player \<Rightarrow> player" where
  "playerUpdateRegeneration hpbase mnbase amount s0 =
    (let a = regen_amount s0 amount;
         s1 = (if poisoned s0 < 1 \<and> chp s0 < mhp s0 then regenhp hpbase a s0 else s0)
     in if cmana s1 < mana s1 then regenmana mnbase a s1 else s1)"

section \<open>Timed status effects\<close>

text \<open>
  Each update routine is written as the source has it. The block run when an effect
  switches on and the block run when it wears off are named \<open>..._on\<close> and \<open>..._off\<close>;
  for heroism and super-heroism they are the source's own functions.
\<close>

subsection \<open>Heroism and super-heroism\<close>

definition playerActivateHeroism :: "player \<Rightarrow> player" where
  "playerActivateHeroism s =
    s\<lparr>status := status s OR PY_HERO,
      mhp := int16 (mhp s + 10), chp := int16 (chp s + 10),
      bth := int16 (bth s + 12), bthb := int16 (bthb s + 12),
      log := log s @ [Disturb 0 0, Msg ''You feel like a HERO!'', Prt_mhp, Prt_chp]\<rparr>"

definition playerDisableHeroism :: "player \<Rightarrow> player" where
  "playerDisableHeroism s0 =
    (let s1 = s0\<lparr>status := status s0 AND NOT PY_HERO, log := log s0 @ [Disturb 0 0],
                 mhp := int16 (mhp s0 - 10)\<rparr>;
         s2 = (if chp s1 > mhp s1
               then s1\<lparr>chp := mhp s1, chp_frac := 0, log := log s1 @ [Prt_chp]\<rparr> else s1)
     in s2\<lparr>bth := int16 (bth s2 - 12), bthb := int16 (bthb s2 - 12),
           log := log s2 @ [Msg ''The heroism wears off.'', Prt_mhp]\<rparr>)"

definition playerActivateSuperHeroism :: "player \<Rightarrow> player" where
  "playerActivateSuperHeroism s =
    s\<lparr>status := status s OR PY_SHERO,
      mhp := int16 (mhp s + 20), chp := int16 (chp s + 20),
      bth := int16 (bth s + 24), bthb := int16 (bthb s + 24),
      log := log s @ [Disturb 0 0, Msg ''You feel like a SUPER HERO!'', Prt_mhp, Prt_chp]\<rparr>"

definition playerDisableSuperHeroism :: "player \<Rightarrow> player" where
  "playerDisableSuperHeroism s0 =
    (let s1 = s0\<lparr>status := status s0 AND NOT PY_SHERO, log := log s0 @ [Disturb 0 0],
                 mhp := int16 (mhp s0 - 20)\<rparr>;
         s2 = (if chp s1 > mhp s1
               then s1\<lparr>chp := mhp s1, chp_frac := 0, log := log s1 @ [Prt_chp]\<rparr> else s1)
     in s2\<lparr>bth := int16 (bth s2 - 24), bthb := int16 (bthb s2 - 24),
           log := log s2 @ [Msg ''The super heroism wears off.'', Prt_mhp]\<rparr>)"

text \<open>
  \<open>playerUpdateHeroStatus\<close> is two blocks in a row, the one commented \<open>Heroism\<close> and
  the one commented \<open>Super Heroism\<close>.
\<close>

definition playerUpdateHeroism :: "player \<Rightarrow> player" where
  "playerUpdateHeroism s0 =
    (if hero s0 > 0
     then
       let s1 = (if PY_HERO AND status s0 = 0 then playerActivateHeroism s0 else s0);
           s2 = s1\<lparr>hero := hero s1 - 1\<rparr>
       in if hero s2 = 0 then playerDisableHeroism s2 else s2
     else s0)"

definition playerUpdateSuperHeroism :: "player \<Rightarrow> player" where
  "playerUpdateSuperHeroism s0 =
    (if shero s0 > 0
     then
       let s1 = (if PY_SHERO AND status s0 = 0 then playerActivateSuperHeroism s0 else s0);
           s2 = s1\<lparr>shero := shero s1 - 1\<rparr>
       in if shero s2 = 0 then playerDisableSuperHeroism s2 else s2
     else s0)"

definition playerUpdateHeroStatus :: "player \<Rightarrow> player" where
  "playerUpdateHeroStatus s = playerUpdateSuperHeroism (playerUpdateHeroism s)"

subsection \<open>Blindness\<close>

definition blindness_on :: "player \<Rightarrow> player" where
  "blindness_on s =
    s\<lparr>status := status s OR PY_BLIND,
      log := log s @ [Prt_map, Prt_blind, Disturb 0 1, UpdateMonsters False]\<rparr>"

definition blindness_off :: "player \<Rightarrow> player" where
  "blindness_off s =
    s\<lparr>status := status s AND NOT PY_BLIND,
      log := log s @ [Prt_blind, Prt_map, Disturb 0 1, UpdateMonsters False,
                      Msg ''The veil of darkness lifts.'']\<rparr>"

definition playerUpdateBlindness :: "player \<Rightarrow> player" where
  "playerUpdateBlindness s0 =
    (if blind s0 \<le> 0 then s0
     else
       let s1 = (if PY_BLIND AND status s0 = 0 then blindness_on s0 else s0);
           s2 = s1\<lparr>blind := blind s1 - 1\<rparr>
       in if blind s2 = 0 then blindness_off s2 else s2)"

subsection \<open>Confusion\<close>

definition confusion_on :: "player \<Rightarrow> player" where
  "confusion_on s = s\<lparr>status := status s OR PY_CONFUSED, log := log s @ [Prt_confused]\<rparr>"

definition confusion_off :: "player \<Rightarrow> player" where
  "confusion_off s0 =
    (let s1 = s0\<lparr>status := status s0 AND NOT PY_CONFUSED,
                 log := log s0 @ [Prt_confused, Msg ''You feel less confused now.'']\<rparr>
     in if rest s1 \<noteq> 0 then s1\<lparr>log := log s1 @ [Rest_off]\<rparr> else s1)"

definition playerUpdateConfusion :: "player \<Rightarrow> player" where
  "playerUpdateConfusion s0 =
    (if confused s0 \<le> 0 then s0
     else
       let s1 = (if PY_CONFUSED AND status s0 = 0 then confusion_on s0 else s0);
           s2 = s1\<lparr>confused := confused s1 - 1\<rparr>
       in if confused s2 = 0 then confusion_off s2 else s2)"

subsection \<open>Fear\<close>

definition fear_on :: "player \<Rightarrow> player" where
  "fear_on s = s\<lparr>status := status s OR PY_FEAR, log := log s @ [Prt_afraid]\<rparr>"

definition fear_off :: "player \<Rightarrow> player" where
  "fear_off s =
    s\<lparr>status := status s AND NOT PY_FEAR,
      log := log s @ [Prt_afraid, Msg ''You feel bolder now.'', Disturb 0 0]\<rparr>"

definition playerUpdateFearState :: "player \<Rightarrow> player" where
  "playerUpdateFearState s0 =
    (if afraid s0 \<le> 0 then s0
     else
       let s1 = (if PY_FEAR AND status s0 = 0
                 then (if shero s0 + hero s0 > 0 then s0\<lparr>afraid := 0\<rparr> else fear_on s0)
                 else if shero s0 + hero s0 > 0 then s0\<lparr>afraid := 1\<rparr>
                 else s0);
           s2 = s1\<lparr>afraid := afraid s1 - 1\<rparr>
       in if afraid s2 = 0 then fear_off s2 else s2)"

subsection \<open>Poison\<close>

definition poison_on :: "player \<Rightarrow> player" where
  "poison_on s = s\<lparr>status := status s OR PY_POISONED, log := log s @ [Prt_poisoned]\<rparr>"

definition poison_off :: "player \<Rightarrow> player" where
  "poison_off s =
    s\<lparr>status := status s AND NOT PY_POISONED,
      log := log s @ [Prt_poisoned, Msg ''You feel better.'', Disturb 0 0]\<rparr>"

text \<open>
  The \<open>switch\<close> on \<open>con_adj()\<close>. Both the constitution adjustment (the answer of a
  collaborator) and the global turn counter are parameters; \<open>%\<close> is C's remainder.
  A comparison yields 1 or 0, and a value outside the cases leaves the damage at 0.
\<close>

definition poison_damage :: "int \<Rightarrow> int \<Rightarrow> int" where
  "poison_damage con_adj current_game_turn =
    (if con_adj = - 4 then 4
     else if con_adj = - 3 \<or> con_adj = - 2 then 3
     else if con_adj = - 1 then 2
     else if con_adj = 0 then 1
     else if con_adj = 1 \<or> con_adj = 2 \<or> con_adj = 3
       then (if current_game_turn smod 2 = 0 then 1 else 0)
     else if con_adj = 4 \<or> con_adj = 5
       then (if current_game_turn smod 3 = 0 then 1 else 0)
     else if con_adj = 6
       then (if current_game_turn smod 4 = 0 then 1 else 0)
     else 0)"

definition poison_hit :: "int \<Rightarrow> int \<Rightarrow> player \<Rightarrow> player" where
  "poison_hit con_adj current_game_turn s =
    s\<lparr>log := log s @ [Take_hit (poison_damage con_adj current_game_turn) ''poison'',
                      Disturb 1 0]\<rparr>"

definition playerUpdatePoisonedState :: "int \<Rightarrow> int \<Rightarrow> player \<Rightarrow> player" where
  "playerUpdatePoisonedState con_adj current_game_turn s0 =
    (if poisoned s0 \<le> 0 then s0
     else
       let s1 = (if PY_POISONED AND status s0 = 0 then poison_on s0 else s0);
           s2 = s1\<lparr>poisoned := poisoned s1 - 1\<rparr>
       in if poisoned s2 = 0 then poison_off s2
          else poison_hit con_adj current_game_turn s2)"

subsection \<open>Speed\<close>

definition fastness_on :: "player \<Rightarrow> player" where
  "fastness_on s =
    s\<lparr>status := status s OR PY_FAST,
      log := log s @ [Change_speed (- 1), Msg ''You feel yourself moving faster.'',
                      Disturb 0 0]\<rparr>"

definition fastness_off :: "player \<Rightarrow> player" where
  "fastness_off s =
    s\<lparr>status := status s AND NOT PY_FAST,
      log := log s @ [Change_speed 1, Msg ''You feel yourself slow down.'', Disturb 0 0]\<rparr>"

definition playerUpdateFastness :: "player \<Rightarrow> player" where
  "playerUpdateFastness s0 =
    (if fast s0 \<le> 0 then s0
     else
       let s1 = (if PY_FAST AND status s0 = 0 then fastness_on s0 else s0);
           s2 = s1\<lparr>fast := fast s1 - 1\<rparr>
       in if fast s2 = 0 then fastness_off s2 else s2)"

definition slowness_on :: "player \<Rightarrow> player" where
  "slowness_on s =
    s\<lparr>status := status s OR PY_SLOW,
      log := log s @ [Change_speed 1, Msg ''You feel yourself moving slower.'',
                      Disturb 0 0]\<rparr>"

definition slowness_off :: "player \<Rightarrow> player" where
  "slowness_off s =
    s\<lparr>status := status s AND NOT PY_SLOW,
      log := log s @ [Change_speed (- 1), Msg ''You feel yourself speed up.'', Disturb 0 0]\<rparr>"

definition playerUpdateSlowness :: "player \<Rightarrow> player" where
  "playerUpdateSlowness s0 =
    (if slow s0 \<le> 0 then s0
     else
       let s1 = (if PY_SLOW AND status s0 = 0 then slowness_on s0 else s0);
           s2 = s1\<lparr>slow := slow s1 - 1\<rparr>
       in if slow s2 = 0 then slowness_off s2 else s2)"

definition playerUpdateSpeed :: "player \<Rightarrow> player" where
  "playerUpdateSpeed s = playerUpdateSlowness (playerUpdateFastness s)"

subsection \<open>Invulnerability and blessedness\<close>

definition invulnerability_on :: "player \<Rightarrow> player" where
  "invulnerability_on s =
    s\<lparr>status := status s OR PY_INVULN,
      pac := int16 (pac s + 100), dis_ac := int16 (dis_ac s + 100),
      log := log s @ [Disturb 0 0, Prt_pac, Msg ''Your skin turns into steel!'']\<rparr>"

definition invulnerability_off :: "player \<Rightarrow> player" where
  "invulnerability_off s =
    s\<lparr>status := status s AND NOT PY_INVULN,
      pac := int16 (pac s - 100), dis_ac := int16 (dis_ac s - 100),
      log := log s @ [Disturb 0 0, Prt_pac, Msg ''Your skin returns to normal.'']\<rparr>"

definition playerUpdateInvulnerability :: "player \<Rightarrow> player" where
  "playerUpdateInvulnerability s0 =
    (if invuln s0 \<le> 0 then s0
     else
       let s1 = (if PY_INVULN AND status s0 = 0 then invulnerability_on s0 else s0);
           s2 = s1\<lparr>invuln := invuln s1 - 1\<rparr>
       in if invuln s2 = 0 then invulnerability_off s2 else s2)"

definition blessedness_on :: "player \<Rightarrow> player" where
  "blessedness_on s =
    s\<lparr>status := status s OR PY_BLESSED,
      bth := int16 (bth s + 5), bthb := int16 (bthb s + 5),
      pac := int16 (pac s + 2), dis_ac := int16 (dis_ac s + 2),
      log := log s @ [Disturb 0 0, Msg ''You feel righteous!'', Prt_pac]\<rparr>"

definition blessedness_off :: "player \<Rightarrow> player" where
  "blessedness_off s =
    s\<lparr>status := status s AND NOT PY_BLESSED,
      bth := int16 (bth s - 5), bthb := int16 (bthb s - 5),
      pac := int16 (pac s - 2), dis_ac := int16 (dis_ac s - 2),
      log := log s @ [Disturb 0 0, Msg ''The prayer has expired.'', Prt_pac]\<rparr>"

definition playerUpdateBlessedness :: "player \<Rightarrow> player" where
  "playerUpdateBlessedness s0 =
    (if blessed s0 \<le> 0 then s0
     else
       let s1 = (if PY_BLESSED AND status s0 = 0 then blessedness_on s0 else s0);
           s2 = s1\<lparr>blessed := blessed s1 - 1\<rparr>
       in if blessed s2 = 0 then blessedness_off s2 else s2)"

subsection \<open>Detect invisible and timed infravision\<close>

definition detect_invisible_on :: "player \<Rightarrow> player" where
  "detect_invisible_on s =
    s\<lparr>status := status s OR PY_DET_INV, see_inv := True,
      log := log s @ [UpdateMonsters False]\<rparr>"

definition detect_invisible_off :: "player \<Rightarrow> player" where
  "detect_invisible_off s =
    s\<lparr>status := status s AND NOT PY_DET_INV,
      log := log s @ [Calc_bonuses, UpdateMonsters False]\<rparr>"

definition playerUpdateDetectInvisible :: "player \<Rightarrow> player" where
  "playerUpdateDetectInvisible s0 =
    (if detect_inv s0 \<le> 0 then s0
     else
       let s1 = (if PY_DET_INV AND status s0 = 0 then detect_invisible_on s0 else s0);
           s2 = s1\<lparr>detect_inv := detect_inv s1 - 1\<rparr>
       in if detect_inv s2 = 0 then detect_invisible_off s2 else s2)"

definition infravision_on :: "player \<Rightarrow> player" where
  "infravision_on s =
    s\<lparr>status := status s OR PY_TIM_INFRA, see_infra := int16 (see_infra s + 1),
      log := log s @ [UpdateMonsters False]\<rparr>"

definition infravision_off :: "player \<Rightarrow> player" where
  "infravision_off s =
    s\<lparr>status := status s AND NOT PY_TIM_INFRA, see_infra := int16 (see_infra s - 1),
      log := log s @ [UpdateMonsters False]\<rparr>"

definition playerUpdateInfraVision :: "player \<Rightarrow> player" where
  "playerUpdateInfraVision s0 =
    (if tim_infra s0 \<le> 0 then s0
     else
       let s1 = (if PY_TIM_INFRA AND status s0 = 0 then infravision_on s0 else s0);
           s2 = s1\<lparr>tim_infra := tim_infra s1 - 1\<rparr>
       in if tim_infra s2 = 0 then infravision_off s2 else s2)"

subsection \<open>The twelve effects that pair a timer with a status bit\<close>

datatype effect =
    Blindness | Confusion | Fear | Poison | Fastness | Slowness
  | Heroism | SuperHeroism | Invulnerability | Blessedness
  | DetectInvisible | InfraVision

fun timer_of :: "effect \<Rightarrow> player \<Rightarrow> int" where
  "timer_of Blindness = blind"
| "timer_of Confusion = confused"
| "timer_of Fear = afraid"
| "timer_of Poison = poisoned"
| "timer_of Fastness = fast"
| "timer_of Slowness = slow"
| "timer_of Heroism = hero"
| "timer_of SuperHeroism = shero"
| "timer_of Invulnerability = invuln"
| "timer_of Blessedness = blessed"
| "timer_of DetectInvisible = detect_inv"
| "timer_of InfraVision = tim_infra"

fun set_timer :: "effect \<Rightarrow> int \<Rightarrow> player \<Rightarrow> player" where
  "set_timer Blindness n s = s\<lparr>blind := n\<rparr>"
| "set_timer Confusion n s = s\<lparr>confused := n\<rparr>"
| "set_timer Fear n s = s\<lparr>afraid := n\<rparr>"
| "set_timer Poison n s = s\<lparr>poisoned := n\<rparr>"
| "set_timer Fastness n s = s\<lparr>fast := n\<rparr>"
| "set_timer Slowness n s = s\<lparr>slow := n\<rparr>"
| "set_timer Heroism n s = s\<lparr>hero := n\<rparr>"
| "set_timer SuperHeroism n s = s\<lparr>shero := n\<rparr>"
| "set_timer Invulnerability n s = s\<lparr>invuln := n\<rparr>"
| "set_timer Blessedness n s = s\<lparr>blessed := n\<rparr>"
| "set_timer DetectInvisible n s = s\<lparr>detect_inv := n\<rparr>"
| "set_timer InfraVision n s = s\<lparr>tim_infra := n\<rparr>"

fun mask_of :: "effect \<Rightarrow> 32 word" where
  "mask_of Blindness = PY_BLIND"
| "mask_of Confusion = PY_CONFUSED"
| "mask_of Fear = PY_FEAR"
| "mask_of Poison = PY_POISONED"
| "mask_of Fastness = PY_FAST"
| "mask_of Slowness = PY_SLOW"
| "mask_of Heroism = PY_HERO"
| "mask_of SuperHeroism = PY_SHERO"
| "mask_of Invulnerability = PY_INVULN"
| "mask_of Blessedness = PY_BLESSED"
| "mask_of DetectInvisible = PY_DET_INV"
| "mask_of InfraVision = PY_TIM_INFRA"

definition bit_set :: "effect \<Rightarrow> player \<Rightarrow> bool" where
  "bit_set e s = (mask_of e AND status s \<noteq> 0)"

fun update_of :: "int \<Rightarrow> int \<Rightarrow> effect \<Rightarrow> player \<Rightarrow> player" where
  "update_of con_adj turn Blindness = playerUpdateBlindness"
| "update_of con_adj turn Confusion = playerUpdateConfusion"
| "update_of con_adj turn Fear = playerUpdateFearState"
| "update_of con_adj turn Poison = playerUpdatePoisonedState con_adj turn"
| "update_of con_adj turn Fastness = playerUpdateFastness"
| "update_of con_adj turn Slowness = playerUpdateSlowness"
| "update_of con_adj turn Heroism = playerUpdateHeroism"
| "update_of con_adj turn SuperHeroism = playerUpdateSuperHeroism"
| "update_of con_adj turn Invulnerability = playerUpdateInvulnerability"
| "update_of con_adj turn Blessedness = playerUpdateBlessedness"
| "update_of con_adj turn DetectInvisible = playerUpdateDetectInvisible"
| "update_of con_adj turn InfraVision = playerUpdateInfraVision"

fun on_of :: "effect \<Rightarrow> player \<Rightarrow> player" where
  "on_of Blindness = blindness_on"
| "on_of Confusion = confusion_on"
| "on_of Fear = fear_on"
| "on_of Poison = poison_on"
| "on_of Fastness = fastness_on"
| "on_of Slowness = slowness_on"
| "on_of Heroism = playerActivateHeroism"
| "on_of SuperHeroism = playerActivateSuperHeroism"
| "on_of Invulnerability = invulnerability_on"
| "on_of Blessedness = blessedness_on"
| "on_of DetectInvisible = detect_invisible_on"
| "on_of InfraVision = infravision_on"

fun off_of :: "effect \<Rightarrow> player \<Rightarrow> player" where
  "off_of Blindness = blindness_off"
| "off_of Confusion = confusion_off"
| "off_of Fear = fear_off"
| "off_of Poison = poison_off"
| "off_of Fastness = fastness_off"
| "off_of Slowness = slowness_off"
| "off_of Heroism = playerDisableHeroism"
| "off_of SuperHeroism = playerDisableSuperHeroism"
| "off_of Invulnerability = invulnerability_off"
| "off_of Blessedness = blessedness_off"
| "off_of DetectInvisible = detect_invisible_off"
| "off_of InfraVision = infravision_off"

text \<open>
  What a tick does besides switching an effect on or off: poison, while it lasts,
  hurts; fear is cut short by heroism (\<open>suppressed\<close>).
\<close>

definition tick_extra :: "int \<Rightarrow> int \<Rightarrow> effect \<Rightarrow> player \<Rightarrow> player" where
  "tick_extra con_adj turn e s = (if e = Poison then poison_hit con_adj turn s else s)"

definition suppressed :: "effect \<Rightarrow> player \<Rightarrow> bool" where
  "suppressed e s = (e = Fear \<and> shero s + hero s > 0)"

section \<open>Terminal input\<close>

text \<open>
  The globals shared by the keypress reader and the command interpreter, with the
  log of calls to the display service in \<open>out\<close>.
\<close>

record session =
  command_count :: int
  player_free_turn :: bool
  running_counter :: int
  find_count :: int
  last_command :: char
  msg_flag :: bool
  eof_flag :: int
  character_generated :: bool
  character_saved :: bool
  panic_save :: bool
  died_from :: string
  death :: bool
  out :: "event list"

text \<open>
  Modelled from the spec: the key-code macros live in an absent header. The spec
  reserves an ESCAPE code and fixes \<open>CTRL(letter)\<close> as the letter code minus 0x40 for
  an upper-case letter; DELETE is the ASCII delete key and \<open>EOF\<close> the C library's
  end-of-input value.
\<close>

definition ESCAPE :: char where "ESCAPE = CHR 0x1B"

definition DELETE :: char where "DELETE = CHR 0x7F"

definition CTRL_KEY :: "char \<Rightarrow> char" where
  "CTRL_KEY c = char_of ((of_char c :: int) - 0x40)"

definition EOF :: int where "EOF = - 1"

text \<open>
  How a call of \<open>inkey\<close> ends: it returns a key, or \<open>exit_game\<close> ends the process, or
  the terminal has nothing more to deliver and \<open>getch\<close> keeps waiting.
\<close>

datatype outcome =
    Returned char "int list" session
  | Exited session
  | Blocked session

text \<open>
  The end-of-input branch of \<open>inkey\<close>. \<open>save_ok\<close> is the answer of \<open>save_char\<close>, a
  collaborator.
\<close>

definition inkey_eof :: "bool \<Rightarrow> int list \<Rightarrow> session \<Rightarrow> outcome" where
  "inkey_eof save_ok pending s0 =
    (let s1 = s0\<lparr>msg_flag := False, eof_flag := eof_flag s0 + 1, out := out s0 @ [Refresh]\<rparr>
     in if \<not> character_generated s1 \<or> character_saved s1 then Exited s1
        else
          let s2 = s1\<lparr>out := out s1 @ [Disturb 1 0]\<rparr>
          in if eof_flag s2 > 100
             then
               let s3 = s2\<lparr>panic_save := True, died_from := ''(end of input: panic saved)'',
                            out := out s2 @ [Save_char]\<rparr>;
                   s4 = (if \<not> save_ok
                         then s3\<lparr>died_from := ''panic: unexpected eof'', death := True\<rparr>
                         else s3)
               in Exited s4
             else Returned ESCAPE pending s2)"

text \<open>
  The \<open>while (true)\<close> loop of \<open>inkey\<close>, over the values \<open>getch\<close> delivers one after the
  other. \<open>(char) i\<close> keeps the low eight bits.
\<close>

fun inkey_loop :: "bool \<Rightarrow> int list \<Rightarrow> session \<Rightarrow> outcome" where
  "inkey_loop save_ok [] s = Blocked s"
| "inkey_loop save_ok (i # pending) s =
    (if i = EOF then inkey_eof save_ok pending s
     else if i \<noteq> of_char (CTRL_KEY (CHR ''R'')) then Returned (char_of i) pending s
     else inkey_loop save_ok pending (s\<lparr>out := out s @ [Wrefresh_curscr, Moriaterm]\<rparr>))"

definition inkey :: "bool \<Rightarrow> int list \<Rightarrow> session \<Rightarrow> outcome" where
  "inkey save_ok input s =
    inkey_loop save_ok input (s\<lparr>out := out s @ [Put_qio], command_count := 0\<rparr>)"

definition session_of :: "outcome \<Rightarrow> session" where
  "session_of r = (case r of Returned c pending s \<Rightarrow> s | Exited s \<Rightarrow> s | Blocked s \<Rightarrow> s)"

definition returned_key :: "outcome \<Rightarrow> char option" where
  "returned_key r = (case r of Returned c pending s \<Rightarrow> Some c | Exited s \<Rightarrow> None | Blocked s \<Rightarrow> None)"

section \<open>Command interpreter\<close>

text \<open>
  \<open>getKeyInput\<close> is a collaborator: it hands over the next pending key, and the
  ESCAPE-equivalent once the input has ended.
\<close>

definition getKeyInput :: "char list \<Rightarrow> char \<times> char list" where
  "getKeyInput ks = (case ks of [] \<Rightarrow> (ESCAPE, []) | k # ks' \<Rightarrow> (k, ks'))"

text \<open>
  One pass through the body of the repeat-count loop of \<open>executeInputCommands\<close> for
  the key \<open>c\<close>: \<open>None\<close> is the \<open>break\<close>. \<open>counter / 10\<close> is C division.
\<close>

definition count_key :: "int \<Rightarrow> event list \<Rightarrow> char \<Rightarrow> (int \<times> event list) option" where
  "count_key counter ev c =
    (if c = DELETE \<or> c = CTRL_KEY (CHR ''H'')
     then Some (counter sdiv 10, ev @ [PutNumber (counter sdiv 10) 0 14])
     else if CHR ''0'' \<le> c \<and> c \<le> CHR ''9''
     then (if counter > 99 then Some (counter, ev @ [Bell])
           else Some (counter * 10 + of_char c - of_char (CHR ''0''),
                      ev @ [PutNumber (counter * 10 + of_char c - of_char (CHR ''0'')) 0 14]))
     else None)"

text \<open>
  The loop itself. After the last pending key \<open>getKeyInput\<close> answers ESCAPE, on which
  the loop breaks.
\<close>

fun count_loop :: "int \<Rightarrow> event list \<Rightarrow> char \<Rightarrow> char list \<Rightarrow> int \<times> event list \<times> char \<times> char list" where
  "count_loop counter ev c ks =
    (case count_key counter ev c of
       None \<Rightarrow> (counter, ev, c, ks)
     | Some (counter', ev') \<Rightarrow>
        (case ks of
           [] \<Rightarrow> (counter', ev', ESCAPE, [])
         | k # ks' \<Rightarrow> count_loop counter' ev' k ks'))"

text \<open>
  ``Get a count for a command'': the first key \<open>c\<close> has been read, \<open>ks\<close> are the keys
  still pending. The result is the count, the command key, the keys left and the log.
\<close>

definition getRepeatCount ::
    "bool \<Rightarrow> char \<Rightarrow> char list \<Rightarrow> event list \<Rightarrow> int \<times> char \<times> char list \<times> event list" where
  "getRepeatCount use_roguelike_keys c ks ev =
    (if (use_roguelike_keys \<and> CHR ''0'' \<le> c \<and> c \<le> CHR ''9'')
        \<or> (\<not> use_roguelike_keys \<and> c = CHR ''#'')
     then
       let ev1 = ev @ [PutString ''Repeat count:'' 0 0];
           c1 = (if c = CHR ''#'' then CHR ''0'' else c);
           (counter, ev2, c2, ks2) = count_loop 0 ev1 c1 ks;
           (counter3, ev3) = (if counter = 0 then (99, ev2 @ [PutNumber 99 0 14])
                              else (counter, ev2))
       in if c2 = CHR '' ''
          then (counter3, fst (getKeyInput ks2), snd (getKeyInput ks2),
                ev3 @ [PutString ''Command:'' 0 20])
          else (counter3, c2, ks2, ev3)
     else (0, c, ks, ev))"

text \<open>\<open>valid_countcommand\<close>, with the case labels in the order of the source.\<close>

definition no_count_commands :: "char list" where
  "no_count_commands =
    [CHR ''Q'', CTRL_KEY (CHR ''W''), CTRL_KEY (CHR ''X''), CHR ''='', CHR ''{'', CHR ''/'',
     CHR ''<'', CHR ''>'', CHR ''?'', CHR ''C'', CHR ''E'', CHR ''F'', CHR ''G'', CHR ''V'',
     CHR ''#'', CHR ''z'', CHR ''P'', CHR ''c'', CHR ''d'', CHR ''e'', CHR ''t'', CHR ''i'',
     CHR ''x'', CHR ''m'', CHR ''p'', CHR ''q'', CHR ''r'', CHR ''T'', CHR ''Z'', CHR ''v'',
     CHR ''w'', CHR ''W'', CHR ''X'', CTRL_KEY (CHR ''A''), CHR 0x5C, CTRL_KEY (CHR ''I''),
     CHR ''*'', CHR '':'', CTRL_KEY (CHR ''T''), CTRL_KEY (CHR ''E''), CTRL_KEY (CHR ''F''),
     CTRL_KEY (CHR ''S''), CTRL_KEY (CHR ''Q'')]"

definition count_commands :: "char list" where
  "count_commands =
    [CTRL_KEY (CHR ''P''), ESCAPE, CHR '' '', CHR ''-'', CHR ''b'', CHR ''f'', CHR ''j'',
     CHR ''n'', CHR ''h'', CHR ''l'', CHR ''y'', CHR ''k'', CHR ''u'', CHR ''.'', CHR ''B'',
     CHR ''J'', CHR ''N'', CHR ''H'', CHR ''L'', CHR ''Y'', CHR ''K'', CHR ''U'', CHR ''D'',
     CHR ''R'', CTRL_KEY (CHR ''Y''), CTRL_KEY (CHR ''K''), CTRL_KEY (CHR ''U''),
     CTRL_KEY (CHR ''L''), CTRL_KEY (CHR ''N''), CTRL_KEY (CHR ''J''), CTRL_KEY (CHR ''B''),
     CTRL_KEY (CHR ''H''), CHR ''S'', CHR ''o'', CHR ''s'', CTRL_KEY (CHR ''D''),
     CTRL_KEY (CHR ''G''), CHR ''+'']"

definition valid_countcommand :: "char \<Rightarrow> bool" where
  "valid_countcommand c =
    (if c \<in> set no_count_commands then False
     else if c \<in> set count_commands then True
     else False)"

text \<open>
  The check of the count against the command, in \<open>executeInputCommands\<close>, once the
  command key is in its roguelike form.
\<close>

definition check_count :: "int \<Rightarrow> char \<Rightarrow> session \<Rightarrow> char \<times> session" where
  "check_count counter c s =
    (if counter > 0
     then (if \<not> valid_countcommand c
           then (CHR '' '', s\<lparr>player_free_turn := True,
                               out := out s @ [Msg ''Invalid command with a count.'']\<rparr>)
           else (c, s\<lparr>command_count := counter, out := out s @ [Prt_state]\<rparr>))
     else (c, s))"

text \<open>
  \<open>do_command\<close>. The cases that call no collaborator (ESCAPE, space, \<open>!\<close> and \<open>$\<close>:
  a free turn, then the assignment to \<open>last_command\<close> that ends the function) are
  written out. Every other case runs handlers that are not part of the sources; what
  such a case does, the closing assignment included, is the parameter \<open>handler\<close>.
  The move-without-pickup transform only acts on the key \<open>-\<close>, which is such a case.
\<close>

definition do_command :: "(char \<Rightarrow> session \<Rightarrow> session) \<Rightarrow> char \<Rightarrow> session \<Rightarrow> session" where
  "do_command handler com_val s =
    (if com_val = CHR ''!'' \<or> com_val = CHR ''$'' \<or> com_val = ESCAPE \<or> com_val = CHR '' ''
     then s\<lparr>player_free_turn := True, last_command := com_val\<rparr>
     else handler com_val s)"

text \<open>The bookkeeping of \<open>executeInputCommands\<close> after \<open>do_command\<close> has returned.\<close>

definition count_after_command :: "session \<Rightarrow> session" where
  "count_after_command s =
    (if running_counter s \<noteq> 0
     then s\<lparr>find_count := command_count s - 1, command_count := 0\<rparr>
     else if player_free_turn s then s\<lparr>command_count := 0\<rparr>
     else if command_count s \<noteq> 0 then s\<lparr>command_count := command_count s - 1\<rparr>
     else s)"

text \<open>
  From the count check to the end of one pass of the command loop, for a key that
  was read with the count \<open>counter\<close>.
\<close>

definition dispatch_counted ::
    "(char \<Rightarrow> session \<Rightarrow> session) \<Rightarrow> int \<Rightarrow> char \<Rightarrow> session \<Rightarrow> char \<times> session" where
  "dispatch_counted handler counter c s =
    (let (c', s1) = check_count counter c s
     in (c', count_after_command (do_command handler c' s1)))"

section \<open>Concrete states\<close>

text \<open>A player with every counter at rest, used to build concrete states.\<close>

definition player0 :: player where
  "player0 = \<lparr>status = 0, blind = 0, confused = 0, afraid = 0, poisoned = 0, fast = 0,
     slow = 0, hero = 0, shero = 0, invuln = 0, blessed = 0, detect_inv = 0,
     tim_infra = 0, rest = 0, see_inv = False, see_infra = 0, regenerate = False,
     mhp = 10, chp = 5, chp_frac = 0, mana = 10, cmana = 5, cmana_frac = 0,
     bth = 0, bthb = 0, pac = 0, dis_ac = 0, log = []\<rparr>"

text \<open>A session in play: a character exists and has not been saved.\<close>

definition session0 :: session where
  "session0 = \<lparr>command_count = 0, player_free_turn = False, running_counter = 0,
     find_count = 0, last_command = CHR '' '', msg_flag = False, eof_flag = 0,
     character_generated = True, character_saved = False, panic_save = False,
     died_from = [], death = False, out = []\<rparr>"

definition near_full :: player where
  "near_full = player0\<lparr>mhp := 10, chp := 9, chp_frac := 65000,
                         mana := 4, cmana := 3, cmana_frac := 65535\<rparr>"

definition before_carry :: player where
  "before_carry = player0\<lparr>chp_frac := 63000\<rparr>"

definition hurt_poisoned :: player where
  "hurt_poisoned = player0\<lparr>poisoned := 3, chp_frac := 65000, cmana_frac := 65500\<rparr>"

definition hurt_healthy :: player where
  "hurt_healthy = player0\<lparr>poisoned := 0, chp_frac := 65000, cmana_frac := 65500\<rparr>"

definition poisoned_player :: player where
  "poisoned_player = player0\<lparr>poisoned := 5, status := PY_POISONED\<rparr>"

definition scared_hero :: player where
  "scared_hero = player0\<lparr>afraid := 3, hero := 5, status := PY_HERO\<rparr>"

definition scared_hero_afraid :: player where
  "scared_hero_afraid = player0\<lparr>afraid := 3, hero := 5, status := PY_HERO OR PY_FEAR\<rparr>"

definition blinded :: player where
  "blinded = player0\<lparr>blind := 2\<rparr>"

definition no_character :: session where
  "no_character = session0\<lparr>character_generated := False\<rparr>"

definition at_threshold :: session where
  "at_threshold = session0\<lparr>eof_flag := 100\<rparr>"

section \<open>Regeneration: the clamp, the bias and the poison gate\<close>

text \<open>
  C4. On return from \<open>regenhp\<close> the current hit points do not exceed the maximum, and
  when they equal it the fractional accumulator is exactly 0; the same holds for
  \<open>regenmana\<close> and the mana fields.
\<close>

theorem regen_clamps_at_max:
  "chp (regenhp hpbase percent s) \<le> mhp (regenhp hpbase percent s)
   \<and> (chp (regenhp hpbase percent s) = mhp (regenhp hpbase percent s)
        \<longrightarrow> chp_frac (regenhp hpbase percent s) = 0)
   \<and> cmana (regenmana mnbase percent s) \<le> mana (regenmana mnbase percent s)
   \<and> (cmana (regenmana mnbase percent s) = mana (regenmana mnbase percent s)
        \<longrightarrow> cmana_frac (regenmana mnbase percent s) = 0)"
  by (auto simp add: regenhp_def regenmana_def Let_def)

theorem regen_clamps_at_max_witness:
  "chp (regenhp 1442 197 near_full) = mhp (regenhp 1442 197 near_full)
   \<and> chp_frac (regenhp 1442 197 near_full) = 0
   \<and> cmana (regenmana 524 197 near_full) = mana (regenmana 524 197 near_full)
   \<and> cmana_frac (regenmana 524 197 near_full) = 0"
proof -
  have a: "chp (regenhp 1442 197 near_full) = mhp (regenhp 1442 197 near_full)"
    by code_simp
  have b: "cmana (regenmana 524 197 near_full) = mana (regenmana 524 197 near_full)"
    by code_simp
  from a b regen_clamps_at_max[of 1442 197 near_full 524] show ?thesis by blast
qed

lemma regenhp_keeps_mhp: "mhp (regenhp b p s) = mhp s"
  by (simp add: regenhp_def Let_def)

lemma rate_zero_step:
  assumes "0 \<le> hpbase" "hpbase < 65536" "- 32768 \<le> chp s" "chp s < mhp s" "mhp s \<le> 32767"
  shows "chp (regenhp hpbase 0 s) = (if 65536 \<le> hpbase + chp_frac s then chp s + 1 else chp s)"
    and "chp_frac (regenhp hpbase 0 s)
           = (if mhp s \<le> chp (regenhp hpbase 0 s) then 0 else (hpbase + chp_frac s) mod 65536)"
  using assms
  by (auto simp add: regenhp_def Let_def MAX_SHORT_def int16_def int32_def uint16_def asr16_def)

lemma carry_step:
  assumes "0 \<le> b" "b < (65536::int)"
  shows "(x + b) div 65536 = x div 65536 + (if 65536 \<le> b + x mod 65536 then 1 else 0)"
    and "(x + b) mod 65536 = (b + x mod 65536) mod 65536"
proof -
  have r: "0 \<le> x mod 65536" "x mod 65536 < 65536" by simp_all
  have "(x + b) div 65536 = x div 65536 + b div 65536 + (x mod 65536 + b mod 65536) div 65536"
    by (rule div_add1_eq)
  moreover have "b div 65536 = 0" "b mod 65536 = b" using assms by simp_all
  moreover have "(x mod 65536 + b) div 65536 = (if 65536 \<le> b + x mod 65536 then 1 else 0)"
    using assms r by (auto simp: div_pos_pos_trivial) 
  ultimately show "(x + b) div 65536 = x div 65536 + (if 65536 \<le> b + x mod 65536 then 1 else 0)"
    by simp
  show "(x + b) mod 65536 = (b + x mod 65536) mod 65536"
    by (simp add: add.commute mod_add_right_eq)
qed

lemma rate_zero_iterated:
  assumes "0 \<le> hpbase" "hpbase < 65536" "- 32768 \<le> chp s" "mhp s \<le> 32767"
    "0 \<le> chp_frac s" "chp_frac s < 65536"
    "chp s + (chp_frac s + int n * hpbase) div 65536 < mhp s"
  shows "chp ((regenhp hpbase 0 ^^ n) s) = chp s + (chp_frac s + int n * hpbase) div 65536
       \<and> chp_frac ((regenhp hpbase 0 ^^ n) s) = (chp_frac s + int n * hpbase) mod 65536
       \<and> mhp ((regenhp hpbase 0 ^^ n) s) = mhp s"
  using assms(7)
proof (induction n)
  case 0
  with assms show ?case by simp
next
  case (Suc n)
  let ?x = "chp_frac s + int n * hpbase"
  let ?t = "(regenhp hpbase 0 ^^ n) s"
  have x: "chp_frac s + int (Suc n) * hpbase = ?x + hpbase" by (simp add: algebra_simps)
  have x0: "0 \<le> ?x" using assms by simp
  have mono: "?x div 65536 \<le> (?x + hpbase) div 65536"
    using assms(1) by (intro zdiv_mono1) simp_all
  from Suc.prems x mono have "chp s + ?x div 65536 < mhp s" by simp
  from Suc.IH[OF this] have ih: "chp ?t = chp s + ?x div 65536"
    "chp_frac ?t = ?x mod 65536" "mhp ?t = mhp s" by simp_all
  have d0: "0 \<le> ?x div 65536" using x0 by (simp add: pos_imp_zdiv_nonneg_iff)
  have lo: "- 32768 \<le> chp ?t" using ih(1) assms(3) d0 by simp
  have lt: "chp ?t < mhp ?t" using ih \<open>chp s + ?x div 65536 < mhp s\<close> by simp
  have hi: "mhp ?t \<le> 32767" using ih assms by simp
  note st = rate_zero_step[OF assms(1,2) lo lt hi]
  have c: "chp (regenhp hpbase 0 ?t) = chp s + (?x + hpbase) div 65536"
    using st(1) ih carry_step(1)[OF assms(1,2), of ?x] by simp
  have nf: "\<not> mhp ?t \<le> chp (regenhp hpbase 0 ?t)"
    using c Suc.prems x ih(3) by simp
  have f: "chp_frac (regenhp hpbase 0 ?t) = (?x + hpbase) mod 65536"
    using st(2) nf ih carry_step(2)[OF assms(1,2), of ?x] by simp
  show ?case unfolding x using c f ih(3) by (simp add: regenhp_keeps_mhp)
qed

lemma before_carry_first_call:
  "regenhp 1442 0 before_carry = before_carry\<lparr>chp_frac := 64442\<rparr>"
  by (simp add: before_carry_def player0_def regenhp_def Let_def
      int16_def int32_def uint16_def asr16_def MAX_SHORT_def)

text \<open>
  C5, as stated: with rate 0 and current below maximum, repeated calls never change
  the current value. It fails: the bias still feeds the fractional accumulator, and
  with a bias of 1442 and an accumulator at 63000 the second call carries a point.
\<close>

theorem regen_rate_zero_counterexample:
  "chp before_carry < mhp before_carry
   \<and> chp (regenhp 1442 0 before_carry) = chp before_carry
   \<and> chp (regenhp 1442 0 (regenhp 1442 0 before_carry)) = chp before_carry + 1"
  by (simp add: before_carry_first_call)
     (simp add: before_carry_def player0_def regenhp_def Let_def
      int16_def int32_def uint16_def asr16_def MAX_SHORT_def)

text \<open>
  C5, amended. With rate 0, a bias in \<open>0 ..< 65536\<close> and a current value below the
  maximum (both in the 16-bit range), a call adds the bias to the fractional
  accumulator modulo \<open>2^16\<close> and leaves the current value unchanged exactly when
  accumulator plus bias stays below \<open>2^16\<close>; otherwise the bias carries and the
  current value grows by one. Over \<open>n\<close> calls that stay below the maximum, the
  current value has grown by \<open>(accumulator + n * bias) div 2^16\<close>: one point for each
  overflow of the accumulator.
\<close>

theorem regen_rate_zero:
  assumes "0 \<le> hpbase" "hpbase < 65536" "- 32768 \<le> chp s" "chp s < mhp s" "mhp s \<le> 32767"
  shows "chp (regenhp hpbase 0 s) = (if 65536 \<le> hpbase + chp_frac s then chp s + 1 else chp s)
       \<and> chp_frac (regenhp hpbase 0 s)
           = (if mhp s \<le> chp (regenhp hpbase 0 s) then 0 else (hpbase + chp_frac s) mod 65536)
       \<and> (0 \<le> chp_frac s \<and> chp_frac s < 65536
            \<and> chp s + (chp_frac s + int n * hpbase) div 65536 < mhp s \<longrightarrow>
            chp ((regenhp hpbase 0 ^^ n) s)
              = chp s + (chp_frac s + int n * hpbase) div 65536
          \<and> chp_frac ((regenhp hpbase 0 ^^ n) s) = (chp_frac s + int n * hpbase) mod 65536)"
  using rate_zero_step[OF assms] rate_zero_iterated[OF assms(1,2,3,5), of n] by blast

theorem regen_rate_zero_witness:
  "(0::int) \<le> 1442 \<and> (1442::int) < 65536 \<and> - 32768 \<le> chp player0 \<and> chp player0 < mhp player0
   \<and> mhp player0 \<le> 32767 \<and> 0 \<le> chp_frac player0 \<and> chp_frac player0 < 65536
   \<and> chp (regenhp 1442 0 player0) = chp player0
   \<and> chp_frac (regenhp 1442 0 player0) = 1442
   \<and> chp ((regenhp 1442 0 ^^ 45) player0) = chp player0
   \<and> chp ((regenhp 1442 0 ^^ 46) player0) = chp player0 + 1
   \<and> chp_frac ((regenhp 1442 0 ^^ 46) player0) = 796"
proof -
  have h: "- 32768 \<le> chp player0" "chp player0 < mhp player0" "mhp player0 \<le> 32767"
    by (simp_all add: player0_def)
  have f: "chp_frac player0 = 0" "chp player0 = 5" "mhp player0 = 10"
    by (simp_all add: player0_def)
  show ?thesis
    using h f regen_rate_zero[of 1442 player0 45, OF _ _ h]
      regen_rate_zero[of 1442 player0 46, OF _ _ h]
    by simp
qed


lemma regenhp_keeps_mana:
  "mana (regenhp b a s) = mana s" "cmana (regenhp b a s) = cmana s"
  "cmana_frac (regenhp b a s) = cmana_frac s"
  by (simp_all add: regenhp_def Let_def)

lemma regenmana_keeps_hp:
  "chp (regenmana b a s) = chp s" "chp_frac (regenmana b a s) = chp_frac s"
  by (simp_all add: regenmana_def Let_def)

lemma regenmana_after_regenhp:
  "cmana (regenmana b a (regenhp b' a' s)) = cmana (regenmana b a s)"
  "cmana_frac (regenmana b a (regenhp b' a' s)) = cmana_frac (regenmana b a s)"
  by (simp_all add: regenmana_def Let_def regenhp_keeps_mana)

text \<open>
  C6. In \<open>playerUpdateRegeneration\<close>, hit-point regeneration is invoked only when the
  poison timer is below 1: with the timer at 1 or more the step is the mana step
  alone. Below 1 (and below full) the hit points are those \<open>regenhp\<close> gives. The mana
  step does not look at poison: whenever mana is below its maximum, the mana fields
  are those \<open>regenmana\<close> gives on the incoming state.
\<close>

theorem poison_gates_hp_regeneration_only:
  "(1 \<le> poisoned s \<longrightarrow>
      playerUpdateRegeneration hpbase mnbase amount s
        = (if cmana s < mana s then regenmana mnbase (regen_amount s amount) s else s))
   \<and> (poisoned s < 1 \<and> chp s < mhp s \<longrightarrow>
        chp (playerUpdateRegeneration hpbase mnbase amount s)
          = chp (regenhp hpbase (regen_amount s amount) s)
      \<and> chp_frac (playerUpdateRegeneration hpbase mnbase amount s)
          = chp_frac (regenhp hpbase (regen_amount s amount) s))
   \<and> (cmana s < mana s \<longrightarrow>
        cmana (playerUpdateRegeneration hpbase mnbase amount s)
          = cmana (regenmana mnbase (regen_amount s amount) s)
      \<and> cmana_frac (playerUpdateRegeneration hpbase mnbase amount s)
          = cmana_frac (regenmana mnbase (regen_amount s amount) s))"
proof -
  have 1: "1 \<le> poisoned s \<longrightarrow>
      playerUpdateRegeneration hpbase mnbase amount s
        = (if cmana s < mana s then regenmana mnbase (regen_amount s amount) s else s)"
    by (simp add: playerUpdateRegeneration_def Let_def)
  have 2: "poisoned s < 1 \<and> chp s < mhp s \<longrightarrow>
        chp (playerUpdateRegeneration hpbase mnbase amount s)
          = chp (regenhp hpbase (regen_amount s amount) s)
      \<and> chp_frac (playerUpdateRegeneration hpbase mnbase amount s)
          = chp_frac (regenhp hpbase (regen_amount s amount) s)"
    by (simp add: playerUpdateRegeneration_def Let_def regenmana_keeps_hp)
  have 3: "cmana s < mana s \<longrightarrow>
        cmana (playerUpdateRegeneration hpbase mnbase amount s)
          = cmana (regenmana mnbase (regen_amount s amount) s)
      \<and> cmana_frac (playerUpdateRegeneration hpbase mnbase amount s)
          = cmana_frac (regenmana mnbase (regen_amount s amount) s)"
    by (simp add: playerUpdateRegeneration_def Let_def regenhp_keeps_mana regenmana_after_regenhp)
  from 1 2 3 show ?thesis by blast
qed

theorem poison_gates_hp_regeneration_only_witness:
  "1 \<le> poisoned hurt_poisoned \<and> cmana hurt_poisoned < mana hurt_poisoned
   \<and> chp (playerUpdateRegeneration 1442 524 197 hurt_poisoned) = chp hurt_poisoned
   \<and> chp_frac (playerUpdateRegeneration 1442 524 197 hurt_poisoned) = chp_frac hurt_poisoned
   \<and> cmana (playerUpdateRegeneration 1442 524 197 hurt_poisoned) = cmana hurt_poisoned + 1
   \<and> poisoned hurt_healthy < 1 \<and> chp hurt_healthy < mhp hurt_healthy
   \<and> cmana hurt_healthy < mana hurt_healthy
   \<and> chp (playerUpdateRegeneration 1442 524 197 hurt_healthy) = chp hurt_healthy + 1
   \<and> cmana (playerUpdateRegeneration 1442 524 197 hurt_healthy) = cmana hurt_healthy + 1"
proof -
  have p: "1 \<le> poisoned hurt_poisoned" "cmana hurt_poisoned < mana hurt_poisoned"
    by (simp_all add: hurt_poisoned_def player0_def)
  have h: "poisoned hurt_healthy < 1" "chp hurt_healthy < mhp hurt_healthy"
    "cmana hurt_healthy < mana hurt_healthy"
    by (simp_all add: hurt_healthy_def player0_def)
  have e1: "chp (regenmana 524 (regen_amount hurt_poisoned 197) hurt_poisoned) = chp hurt_poisoned"
    "chp_frac (regenmana 524 (regen_amount hurt_poisoned 197) hurt_poisoned) = chp_frac hurt_poisoned"
    "cmana (regenmana 524 (regen_amount hurt_poisoned 197) hurt_poisoned) = cmana hurt_poisoned + 1"
    by code_simp+
  have e2: "chp (regenhp 1442 (regen_amount hurt_healthy 197) hurt_healthy) = chp hurt_healthy + 1"
    "cmana (regenmana 524 (regen_amount hurt_healthy 197) hurt_healthy) = cmana hurt_healthy + 1"
    by code_simp+
  show ?thesis
    using p h e1 e2
      poison_gates_hp_regeneration_only[of hurt_poisoned 1442 524 197]
      poison_gates_hp_regeneration_only[of hurt_healthy 1442 524 197]
    by simp
qed

section \<open>Status bits and their timers\<close>

lemma mask_or: "m \<noteq> 0 \<Longrightarrow> m AND (x OR m) \<noteq> (0::32 word)"
  by (simp add: word_ao_absorbs)

lemma mask_and_not: "m AND (x AND NOT m) = (0::32 word)"
  by (auto simp: bit_eq_iff bit_simps)

lemma mask_or_other: "m AND m' = 0 \<Longrightarrow> m AND (x OR m') = m AND (x::32 word)"
  by (simp add: bit.conj_disj_distrib)

lemma mask_and_not_other: "m AND m' = 0 \<Longrightarrow> m AND (x AND NOT m') = m AND (x::32 word)"
  by (auto simp: bit_eq_iff bit_simps)

lemma hero_shero_disjoint: "PY_HERO AND PY_SHERO = 0" "PY_SHERO AND PY_HERO = 0"
  by (simp_all add: PY_HERO_def PY_SHERO_def)

lemma masks_nonzero: "mask_of e \<noteq> 0"
  by (cases e)
     (simp_all add: PY_BLIND_def PY_CONFUSED_def PY_FEAR_def PY_POISONED_def PY_FAST_def
        PY_SLOW_def PY_HERO_def PY_SHERO_def PY_INVULN_def PY_BLESSED_def PY_DET_INV_def
        PY_TIM_INFRA_def)

lemmas update_defs =
  playerUpdateBlindness_def playerUpdateConfusion_def playerUpdateFearState_def
  playerUpdatePoisonedState_def playerUpdateFastness_def playerUpdateSlowness_def
  playerUpdateHeroism_def playerUpdateSuperHeroism_def playerUpdateInvulnerability_def
  playerUpdateBlessedness_def playerUpdateDetectInvisible_def playerUpdateInfraVision_def

lemmas on_off_defs =
  blindness_on_def blindness_off_def confusion_on_def confusion_off_def fear_on_def fear_off_def
  poison_on_def poison_off_def poison_hit_def fastness_on_def fastness_off_def
  slowness_on_def slowness_off_def playerActivateHeroism_def playerDisableHeroism_def
  playerActivateSuperHeroism_def playerDisableSuperHeroism_def
  invulnerability_on_def invulnerability_off_def blessedness_on_def blessedness_off_def
  detect_invisible_on_def detect_invisible_off_def infravision_on_def infravision_off_def

lemma on_sets_bit: "bit_set e (on_of e s)"
  using masks_nonzero[of e]
  by (cases e) (simp_all add: bit_set_def on_off_defs mask_or)

lemma off_clears_bit: "\<not> bit_set e (off_of e s)"
  by (cases e) (simp_all add: bit_set_def on_off_defs mask_and_not Let_def)

lemma on_keeps_timer: "timer_of e (on_of e s) = timer_of e s"
  by (cases e) (simp_all add: on_off_defs)

lemma off_keeps_timer: "timer_of e (off_of e s) = timer_of e s"
  by (cases e) (simp_all add: on_off_defs Let_def)

lemma set_timer_bit: "bit_set e (set_timer e n s) = bit_set e s"
  by (cases e) (simp_all add: bit_set_def)

lemma timer_set_timer: "timer_of e (set_timer e n s) = n"
  by (cases e) simp_all

lemma extra_bit: "bit_set e (tick_extra c t e s) = bit_set e s"
  by (simp add: tick_extra_def bit_set_def poison_hit_def)

lemma extra_timer: "timer_of e (tick_extra c t e s) = timer_of e s"
  by (cases e) (simp_all add: tick_extra_def poison_hit_def)

lemma tick_idle: "timer_of e s \<le> 0 \<Longrightarrow> update_of c t e s = s"
  by (cases e) (simp_all add: update_defs)

lemma tick_quiet:
  "\<not> suppressed e s \<Longrightarrow> bit_set e s \<Longrightarrow> 1 < timer_of e s \<Longrightarrow>
   update_of c t e s = tick_extra c t e (set_timer e (timer_of e s - 1) s)"
  by (cases e)
     (simp_all add: update_defs bit_set_def suppressed_def tick_extra_def Let_def)

lemma tick_on:
  "\<not> suppressed e s \<Longrightarrow> \<not> bit_set e s \<Longrightarrow> 1 < timer_of e s \<Longrightarrow>
   update_of c t e s = tick_extra c t e (set_timer e (timer_of e s - 1) (on_of e s))"
  by (cases e)
     (simp_all add: update_defs bit_set_def suppressed_def tick_extra_def Let_def on_off_defs)

lemma tick_off:
  "\<not> suppressed e s \<Longrightarrow> bit_set e s \<Longrightarrow> timer_of e s = 1 \<Longrightarrow>
   update_of c t e s = off_of e (set_timer e 0 s)"
  by (cases e) (simp_all add: update_defs bit_set_def suppressed_def Let_def)

lemma tick_on_off:
  "\<not> suppressed e s \<Longrightarrow> \<not> bit_set e s \<Longrightarrow> timer_of e s = 1 \<Longrightarrow>
   update_of c t e s = off_of e (set_timer e 0 (on_of e s))"
  by (cases e) (simp_all add: update_defs bit_set_def suppressed_def Let_def on_off_defs)

lemma fear_suppressed_clear:
  "0 < afraid s \<Longrightarrow> 0 < shero s + hero s \<Longrightarrow> \<not> bit_set Fear s \<Longrightarrow>
   playerUpdateFearState s = s\<lparr>afraid := - 1\<rparr>"
  by (simp add: playerUpdateFearState_def bit_set_def Let_def)

lemma fear_suppressed_set:
  "0 < afraid s \<Longrightarrow> 0 < shero s + hero s \<Longrightarrow> bit_set Fear s \<Longrightarrow>
   playerUpdateFearState s = fear_off (s\<lparr>afraid := 0\<rparr>)"
  by (simp add: playerUpdateFearState_def bit_set_def Let_def)

lemma bit_follows_timer:
  assumes "bit_set e s \<longrightarrow> 0 < timer_of e s"
  shows "bit_set e (update_of c t e s) \<longleftrightarrow> 0 < timer_of e (update_of c t e s)"
proof (cases "timer_of e s \<le> 0")
  case True
  with assms show ?thesis by (auto simp: tick_idle)
next
  case pos: False
  show ?thesis
  proof (cases "suppressed e s")
    case True
    then have e: "e = Fear" and h: "0 < shero s + hero s" by (simp_all add: suppressed_def)
    from pos e have a: "0 < afraid s" by simp
    show ?thesis
      using fear_suppressed_clear[OF a h] fear_suppressed_set[OF a h] off_clears_bit[of Fear]
      by (cases "bit_set Fear s") (simp_all add: e bit_set_def fear_off_def)
  next
    case ns: False
    consider "bit_set e s" "1 < timer_of e s" | "\<not> bit_set e s" "1 < timer_of e s"
      | "bit_set e s" "timer_of e s = 1" | "\<not> bit_set e s" "timer_of e s = 1"
      using pos by fastforce
    then show ?thesis
    proof cases
      case 1
      then show ?thesis
        by (simp add: tick_quiet[OF ns] extra_bit extra_timer set_timer_bit timer_set_timer)
    next
      case 2
      then show ?thesis
        by (simp add: tick_on[OF ns] extra_bit extra_timer set_timer_bit timer_set_timer
              on_sets_bit)
    next
      case 3
      then show ?thesis
        by (simp add: tick_off[OF ns] off_clears_bit off_keeps_timer timer_set_timer)
    next
      case 4
      then show ?thesis
        by (simp add: tick_on_off[OF ns] off_clears_bit off_keeps_timer timer_set_timer)
    qed
  qed
qed

lemma shero_tick_keeps_hero:
  "hero (playerUpdateSuperHeroism s) = hero s"
  "bit_set Heroism (playerUpdateSuperHeroism s) = bit_set Heroism s"
  by (simp_all add: playerUpdateSuperHeroism_def playerActivateSuperHeroism_def
        playerDisableSuperHeroism_def Let_def bit_set_def mask_or_other mask_and_not_other
        hero_shero_disjoint)

lemma hero_tick_keeps_shero:
  "shero (playerUpdateHeroism s) = shero s"
  "bit_set SuperHeroism (playerUpdateHeroism s) = bit_set SuperHeroism s"
  by (simp_all add: playerUpdateHeroism_def playerActivateHeroism_def
        playerDisableHeroism_def Let_def bit_set_def mask_or_other mask_and_not_other
        hero_shero_disjoint)

lemma hero_status_bits:
  "(bit_set Heroism s \<longrightarrow> 0 < hero s) \<Longrightarrow>
     bit_set Heroism (playerUpdateHeroStatus s) \<longleftrightarrow> 0 < hero (playerUpdateHeroStatus s)"
  "(bit_set SuperHeroism s \<longrightarrow> 0 < shero s) \<Longrightarrow>
     bit_set SuperHeroism (playerUpdateHeroStatus s)
       \<longleftrightarrow> 0 < shero (playerUpdateHeroStatus s)"
  using bit_follows_timer[of Heroism s 0 0]
    bit_follows_timer[of SuperHeroism "playerUpdateHeroism s" 0 0]
  by (simp_all add: playerUpdateHeroStatus_def shero_tick_keeps_hero hero_tick_keeps_shero)

lemma masks_disjoint: "e \<noteq> e' \<Longrightarrow> mask_of e' AND mask_of e = 0"
  by (cases e; cases e')
     (simp_all add: PY_BLIND_def PY_CONFUSED_def PY_FEAR_def PY_POISONED_def PY_FAST_def
        PY_SLOW_def PY_HERO_def PY_SHERO_def PY_INVULN_def PY_BLESSED_def PY_DET_INV_def
        PY_TIM_INFRA_def)

lemma on_status: "status (on_of e s) = status s OR mask_of e"
  by (cases e) (simp_all add: on_off_defs)

lemma off_status: "status (off_of e s) = status s AND NOT (mask_of e)"
  by (cases e) (simp_all add: on_off_defs Let_def)

lemma set_timer_status: "status (set_timer e n s) = status s"
  by (cases e) simp_all

lemma extra_status: "status (tick_extra c t e s) = status s"
  by (simp add: tick_extra_def poison_hit_def)

lemma on_other_timer: "e' \<noteq> e \<Longrightarrow> timer_of e' (on_of e s) = timer_of e' s"
  by (cases e; cases e') (simp_all add: on_off_defs)

lemma off_other_timer: "e' \<noteq> e \<Longrightarrow> timer_of e' (off_of e s) = timer_of e' s"
  by (cases e; cases e') (simp_all add: on_off_defs Let_def)

lemma set_other_timer: "e' \<noteq> e \<Longrightarrow> timer_of e' (set_timer e n s) = timer_of e' s"
  by (cases e; cases e') simp_all

lemma extra_other_timer: "timer_of e' (tick_extra c t e s) = timer_of e' s"
  by (cases e') (simp_all add: tick_extra_def poison_hit_def)

lemma tick_cancel:
  "suppressed e s \<Longrightarrow> 0 < timer_of e s \<Longrightarrow> \<not> bit_set e s \<Longrightarrow>
   update_of c t e s = set_timer e (- 1) s"
  by (cases e) (simp_all add: suppressed_def playerUpdateFearState_def bit_set_def Let_def)

lemma tick_cut_short:
  "suppressed e s \<Longrightarrow> 0 < timer_of e s \<Longrightarrow> bit_set e s \<Longrightarrow>
   update_of c t e s = off_of e (set_timer e 0 s)"
  by (cases e) (simp_all add: suppressed_def playerUpdateFearState_def bit_set_def Let_def)

lemma tick_shapes:
  "update_of c t e s = s
   \<or> (\<exists>n. update_of c t e s = tick_extra c t e (set_timer e n s))
   \<or> (\<exists>n. update_of c t e s = tick_extra c t e (set_timer e n (on_of e s)))
   \<or> update_of c t e s = off_of e (set_timer e 0 s)
   \<or> update_of c t e s = off_of e (set_timer e 0 (on_of e s))
   \<or> update_of c t e s = set_timer e (- 1) s"
proof (cases "timer_of e s \<le> 0")
  case True
  then show ?thesis by (simp add: tick_idle)
next
  case pos: False
  show ?thesis
  proof (cases "suppressed e s")
    case True
    with pos tick_cancel[of e s c t] tick_cut_short[of e s c t] show ?thesis
      by (cases "bit_set e s") simp_all
  next
    case ns: False
    consider "bit_set e s" "1 < timer_of e s" | "\<not> bit_set e s" "1 < timer_of e s"
      | "bit_set e s" "timer_of e s = 1" | "\<not> bit_set e s" "timer_of e s = 1"
      using pos by fastforce
    then show ?thesis
    proof cases
      case 1 with tick_quiet[OF ns, of c t] show ?thesis by blast
    next
      case 2 with tick_on[OF ns, of c t] show ?thesis by blast
    next
      case 3 with tick_off[OF ns, of c t] show ?thesis by blast
    next
      case 4 with tick_on_off[OF ns, of c t] show ?thesis by blast
    qed
  qed
qed

lemma update_keeps_others:
  assumes "e' \<noteq> e"
  shows "timer_of e' (update_of c t e s) = timer_of e' s"
    and "bit_set e' (update_of c t e s) = bit_set e' s"
proof -
  have d: "mask_of e' AND mask_of e = 0" using assms masks_disjoint[of e e'] by simp
  have k: "timer_of e' (update_of c t e s) = timer_of e' s
         \<and> bit_set e' (update_of c t e s) = bit_set e' s"
    using tick_shapes[of c t e s] assms
    by (elim disjE exE)
       (simp_all add: bit_set_def on_status off_status set_timer_status extra_status
          on_other_timer off_other_timer set_other_timer extra_other_timer
          mask_or_other[OF d] mask_and_not_other[OF d]
          del: set_timer.simps on_of.simps off_of.simps timer_of.simps update_of.simps
               mask_of.simps)
  from k show "timer_of e' (update_of c t e s) = timer_of e' s"
    and "bit_set e' (update_of c t e s) = bit_set e' s" by simp_all
qed

lemma set_bits_stay_timed:
  assumes "\<forall>e'. bit_set e' s \<longrightarrow> 0 < timer_of e' s"
  shows "\<forall>e'. bit_set e' (update_of c t e s) \<longrightarrow> 0 < timer_of e' (update_of c t e s)"
proof (intro allI impI)
  fix e'
  assume b: "bit_set e' (update_of c t e s)"
  show "0 < timer_of e' (update_of c t e s)"
  proof (cases "e' = e")
    case True
    with b bit_follows_timer[of e s c t] assms show ?thesis by blast
  next
    case False
    with b assms show ?thesis by (simp add: update_keeps_others)
  qed
qed

text \<open>
  C1, as stated: the switch-on and wear-off side effects each fire once per
  zero-crossing of the timer. It fails for fear: with heroism running and fear not
  yet shown, a fear timer of 3 drops below zero in one update and nothing at all is
  logged.
\<close>

theorem status_bit_counterexample:
  "0 < afraid scared_hero
   \<and> afraid (playerUpdateFearState scared_hero) < 0
   \<and> log (playerUpdateFearState scared_hero) = log scared_hero"
  by (simp add: scared_hero_def player0_def playerUpdateFearState_def PY_HERO_def PY_FEAR_def
        Let_def)

text \<open>
  C1, amended. In the states the updates work on, a bit is set only over a positive
  timer; every update keeps that, for all twelve effects at once. From such a state,
  after the update of effect \<open>e\<close> its bit is set if and only if its timer is
  positive (also for both bits after the whole of \<open>playerUpdateHeroStatus\<close>). A
  timer that is not positive leaves the state untouched. Otherwise, unless heroism is
  suppressing fear, the switch-on block runs exactly on the tick that finds the bit
  clear, the wear-off block exactly on the tick whose decrement brings the timer to
  0, and a tick that finds the bit set and leaves the timer positive only decrements
  (and, for poison, hurts). Under heroism a fear timer whose bit is clear is set to
  -1 and nothing else happens, with neither block run; a fear that is showing wears
  off on that very tick. The switch-on block sets the bit, the wear-off block clears
  it, and neither touches the timer.
\<close>

theorem status_bit_follows_timer:
  "((bit_set e s \<longrightarrow> 0 < timer_of e s) \<longrightarrow>
      (bit_set e (update_of c t e s) \<longleftrightarrow> 0 < timer_of e (update_of c t e s)))
   \<and> ((bit_set Heroism s \<longrightarrow> 0 < hero s) \<longrightarrow>
      (bit_set Heroism (playerUpdateHeroStatus s) \<longleftrightarrow> 0 < hero (playerUpdateHeroStatus s)))
   \<and> ((bit_set SuperHeroism s \<longrightarrow> 0 < shero s) \<longrightarrow>
      (bit_set SuperHeroism (playerUpdateHeroStatus s)
         \<longleftrightarrow> 0 < shero (playerUpdateHeroStatus s)))
   \<and> ((\<forall>e'. bit_set e' s \<longrightarrow> 0 < timer_of e' s) \<longrightarrow>
      (\<forall>e'. bit_set e' (update_of c t e s) \<longrightarrow> 0 < timer_of e' (update_of c t e s)))
   \<and> (timer_of e s \<le> 0 \<longrightarrow> update_of c t e s = s)
   \<and> (\<not> suppressed e s \<and> bit_set e s \<and> 1 < timer_of e s \<longrightarrow>
        update_of c t e s = tick_extra c t e (set_timer e (timer_of e s - 1) s))
   \<and> (\<not> suppressed e s \<and> \<not> bit_set e s \<and> 1 < timer_of e s \<longrightarrow>
        update_of c t e s = tick_extra c t e (set_timer e (timer_of e s - 1) (on_of e s)))
   \<and> (\<not> suppressed e s \<and> bit_set e s \<and> timer_of e s = 1 \<longrightarrow>
        update_of c t e s = off_of e (set_timer e 0 s))
   \<and> (\<not> suppressed e s \<and> \<not> bit_set e s \<and> timer_of e s = 1 \<longrightarrow>
        update_of c t e s = off_of e (set_timer e 0 (on_of e s)))
   \<and> (suppressed e s \<and> \<not> bit_set e s \<and> 0 < timer_of e s \<longrightarrow>
        update_of c t e s = set_timer e (- 1) s)
   \<and> (suppressed e s \<and> bit_set e s \<and> 0 < timer_of e s \<longrightarrow>
        update_of c t e s = off_of e (set_timer e 0 s))
   \<and> bit_set e (on_of e s) \<and> \<not> bit_set e (off_of e s)
   \<and> timer_of e (on_of e s) = timer_of e s \<and> timer_of e (off_of e s) = timer_of e s"
  using bit_follows_timer[of e s c t] hero_status_bits[of s] tick_idle[of e s c t]
    tick_quiet[of e s c t] tick_on[of e s c t] tick_off[of e s c t] tick_on_off[of e s c t]
    tick_cancel[of e s c t] tick_cut_short[of e s c t] set_bits_stay_timed[of s c t e]
    on_sets_bit[of e s] off_clears_bit[of e s] on_keeps_timer[of e s] off_keeps_timer[of e s]
  by blast


text \<open>
  Blindness for two turns: the first update switches it on, the second wears it off,
  a third does nothing. Each block has fired once. Fear under heroism: cancelled
  when not yet showing, worn off at once when showing.
\<close>

theorem status_bit_follows_timer_witness:
  "\<not> suppressed Blindness blinded \<and> \<not> bit_set Blindness blinded
   \<and> 1 < timer_of Blindness blinded
   \<and> bit_set Blindness (playerUpdateBlindness blinded)
   \<and> timer_of Blindness (playerUpdateBlindness blinded) = 1
   \<and> log (playerUpdateBlindness blinded)
        = [Prt_map, Prt_blind, Disturb 0 1, UpdateMonsters False]
   \<and> \<not> bit_set Blindness (playerUpdateBlindness (playerUpdateBlindness blinded))
   \<and> timer_of Blindness (playerUpdateBlindness (playerUpdateBlindness blinded)) = 0
   \<and> log (playerUpdateBlindness (playerUpdateBlindness blinded))
        = [Prt_map, Prt_blind, Disturb 0 1, UpdateMonsters False,
           Prt_blind, Prt_map, Disturb 0 1, UpdateMonsters False,
           Msg ''The veil of darkness lifts.'']
   \<and> playerUpdateBlindness (playerUpdateBlindness (playerUpdateBlindness blinded))
        = playerUpdateBlindness (playerUpdateBlindness blinded)
   \<and> suppressed Fear scared_hero \<and> \<not> bit_set Fear scared_hero
   \<and> 0 < timer_of Fear scared_hero
   \<and> playerUpdateFearState scared_hero = scared_hero\<lparr>afraid := - 1\<rparr>
   \<and> suppressed Fear scared_hero_afraid \<and> bit_set Fear scared_hero_afraid
   \<and> 0 < timer_of Fear scared_hero_afraid
   \<and> playerUpdateFearState scared_hero_afraid = fear_off (scared_hero_afraid\<lparr>afraid := 0\<rparr>)"
proof -
  have f: "suppressed Fear scared_hero" "\<not> bit_set Fear scared_hero"
    "0 < timer_of Fear scared_hero"
    by (simp_all add: suppressed_def bit_set_def scared_hero_def player0_def PY_HERO_def
          PY_FEAR_def)
  have g: "suppressed Fear scared_hero_afraid" "bit_set Fear scared_hero_afraid"
    "0 < timer_of Fear scared_hero_afraid"
    by (simp_all add: suppressed_def bit_set_def scared_hero_afraid_def player0_def PY_HERO_def
          PY_FEAR_def)
  have f': "update_of 0 0 Fear scared_hero = set_timer Fear (- 1) scared_hero"
    using status_bit_follows_timer[of Fear scared_hero 0 0] f by blast
  have g': "update_of 0 0 Fear scared_hero_afraid
              = off_of Fear (set_timer Fear 0 scared_hero_afraid)"
    using status_bit_follows_timer[of Fear scared_hero_afraid 0 0] g by blast
  have fg: "playerUpdateFearState scared_hero = scared_hero\<lparr>afraid := - 1\<rparr>"
    "playerUpdateFearState scared_hero_afraid = fear_off (scared_hero_afraid\<lparr>afraid := 0\<rparr>)"
    using f' g' by simp_all
  have a: "\<not> suppressed Blindness blinded" "\<not> bit_set Blindness blinded"
    "1 < timer_of Blindness blinded" "timer_of Blindness blinded = 2" "log blinded = []"
    by (simp_all add: suppressed_def bit_set_def blinded_def player0_def)
  let ?s1 = "tick_extra 0 0 Blindness (set_timer Blindness (timer_of Blindness blinded - 1)
               (on_of Blindness blinded))"
  have s1: "update_of 0 0 Blindness blinded = ?s1"
    using status_bit_follows_timer[of Blindness blinded 0 0] a by blast
  have b: "\<not> suppressed Blindness ?s1" "bit_set Blindness ?s1" "timer_of Blindness ?s1 = 1"
    using a by (simp_all add: suppressed_def extra_bit set_timer_bit on_sets_bit extra_timer
                  timer_set_timer
                del: set_timer.simps on_of.simps off_of.simps timer_of.simps)
  let ?s2 = "off_of Blindness (set_timer Blindness 0 ?s1)"
  have s2: "update_of 0 0 Blindness ?s1 = ?s2"
    using status_bit_follows_timer[of Blindness ?s1 0 0] b by blast
  have c: "timer_of Blindness ?s2 \<le> 0"
    by (simp add: off_keeps_timer timer_set_timer
          del: set_timer.simps on_of.simps off_of.simps timer_of.simps)
  have s3: "update_of 0 0 Blindness ?s2 = ?s2"
    using status_bit_follows_timer[of Blindness ?s2 0 0] c by blast
  have l1: "log ?s1 = [Prt_map, Prt_blind, Disturb 0 1, UpdateMonsters False]"
    using a by (simp add: tick_extra_def blindness_on_def)
  have l2: "log ?s2 = [Prt_map, Prt_blind, Disturb 0 1, UpdateMonsters False,
           Prt_blind, Prt_map, Disturb 0 1, UpdateMonsters False,
           Msg ''The veil of darkness lifts.'']"
    using a by (simp add: tick_extra_def blindness_on_def blindness_off_def)
  have u: "playerUpdateBlindness = update_of 0 0 Blindness" by simp
  have blind_part:
    "bit_set Blindness (playerUpdateBlindness blinded)
     \<and> timer_of Blindness (playerUpdateBlindness blinded) = 1
     \<and> log (playerUpdateBlindness blinded)
          = [Prt_map, Prt_blind, Disturb 0 1, UpdateMonsters False]
     \<and> \<not> bit_set Blindness (playerUpdateBlindness (playerUpdateBlindness blinded))
     \<and> timer_of Blindness (playerUpdateBlindness (playerUpdateBlindness blinded)) = 0
     \<and> log (playerUpdateBlindness (playerUpdateBlindness blinded))
          = [Prt_map, Prt_blind, Disturb 0 1, UpdateMonsters False,
             Prt_blind, Prt_map, Disturb 0 1, UpdateMonsters False,
             Msg ''The veil of darkness lifts.'']
     \<and> playerUpdateBlindness (playerUpdateBlindness (playerUpdateBlindness blinded))
          = playerUpdateBlindness (playerUpdateBlindness blinded)"
    unfolding u s1 s2 s3
    using b(2,3) l1 l2 off_clears_bit[of Blindness "set_timer Blindness 0 ?s1"]
    by (simp add: off_keeps_timer timer_set_timer
          del: set_timer.simps on_of.simps off_of.simps timer_of.simps)
  from a(1,2,3) blind_part f g fg show ?thesis by blast
qed


text \<open>
  C7. While the hero and super-hero timers sum to more than 0, fear is suppressed. If
  the fear bit is clear it stays clear, the update logs nothing and the fear timer
  ends at 0 or below. If fear is showing (bit set, timer positive) the update behaves
  as if the timer were 1, whatever it was: the decrement brings it to 0 and fear
  wears off at once.
\<close>

theorem heroism_suppresses_fear:
  assumes "0 < shero s + hero s"
  shows "(\<not> bit_set Fear s \<longrightarrow>
            \<not> bit_set Fear (playerUpdateFearState s)
          \<and> afraid (playerUpdateFearState s) \<le> 0
          \<and> log (playerUpdateFearState s) = log s)
       \<and> (bit_set Fear s \<and> 0 < afraid s \<longrightarrow>
            playerUpdateFearState s = playerUpdateFearState (s\<lparr>afraid := 1\<rparr>)
          \<and> playerUpdateFearState s = fear_off (s\<lparr>afraid := 0\<rparr>)
          \<and> afraid (playerUpdateFearState s) = 0
          \<and> \<not> bit_set Fear (playerUpdateFearState s))"
proof -
  have m: "PY_FEAR AND (x AND NOT PY_FEAR) = 0" for x :: "32 word"
    by (auto simp: bit_eq_iff bit_simps)
  have 1: "\<not> bit_set Fear s \<longrightarrow>
            \<not> bit_set Fear (playerUpdateFearState s)
          \<and> afraid (playerUpdateFearState s) \<le> 0
          \<and> log (playerUpdateFearState s) = log s"
    using assms by (simp add: playerUpdateFearState_def bit_set_def Let_def)
  have 2: "bit_set Fear s \<and> 0 < afraid s \<longrightarrow>
            playerUpdateFearState s = playerUpdateFearState (s\<lparr>afraid := 1\<rparr>)
          \<and> playerUpdateFearState s = fear_off (s\<lparr>afraid := 0\<rparr>)
          \<and> afraid (playerUpdateFearState s) = 0
          \<and> \<not> bit_set Fear (playerUpdateFearState s)"
    using assms by (simp add: playerUpdateFearState_def bit_set_def Let_def fear_off_def m)
  from 1 2 show ?thesis by blast
qed

theorem heroism_suppresses_fear_witness:
  "0 < shero scared_hero + hero scared_hero \<and> \<not> bit_set Fear scared_hero
   \<and> \<not> bit_set Fear (playerUpdateFearState scared_hero)
   \<and> log (playerUpdateFearState scared_hero) = []
   \<and> 0 < shero scared_hero_afraid + hero scared_hero_afraid
   \<and> bit_set Fear scared_hero_afraid \<and> 0 < afraid scared_hero_afraid
   \<and> afraid (playerUpdateFearState scared_hero_afraid) = 0
   \<and> \<not> bit_set Fear (playerUpdateFearState scared_hero_afraid)
   \<and> log (playerUpdateFearState scared_hero_afraid)
        = [Prt_afraid, Msg ''You feel bolder now.'', Disturb 0 0]"
proof -
  have a: "0 < shero scared_hero + hero scared_hero" "\<not> bit_set Fear scared_hero"
    "log scared_hero = []"
    by (simp_all add: scared_hero_def player0_def bit_set_def PY_HERO_def PY_FEAR_def)
  have b: "0 < shero scared_hero_afraid + hero scared_hero_afraid"
    "bit_set Fear scared_hero_afraid" "0 < afraid scared_hero_afraid"
    "log scared_hero_afraid = []"
    by (simp_all add: scared_hero_afraid_def player0_def bit_set_def PY_HERO_def PY_FEAR_def)
  have l: "log (fear_off (scared_hero_afraid\<lparr>afraid := 0\<rparr>))
             = [Prt_afraid, Msg ''You feel bolder now.'', Disturb 0 0]"
    using b(4) by (simp add: fear_off_def)
  have x: "\<not> bit_set Fear (playerUpdateFearState scared_hero)"
    "log (playerUpdateFearState scared_hero) = log scared_hero"
    using heroism_suppresses_fear[OF a(1)] a(2) by blast+
  have y: "playerUpdateFearState scared_hero_afraid = fear_off (scared_hero_afraid\<lparr>afraid := 0\<rparr>)"
    "afraid (playerUpdateFearState scared_hero_afraid) = 0"
    "\<not> bit_set Fear (playerUpdateFearState scared_hero_afraid)"
    using heroism_suppresses_fear[OF b(1)] b(2,3) by blast+
  from a b x y(2,3) l show ?thesis
    unfolding y(1) by simp
qed

lemma smod_zero_iff_dvd: "0 < n \<Longrightarrow> (k smod n = 0) = (n dvd (k::int))"
  by (auto simp: signed_modulo_int_def sgn_if mod_eq_0_iff_dvd)

text \<open>
  C2. When the poison timer is still positive after its decrement, the update logs
  one \<open>take_hit\<close> for poison (after the redraw, if the bit was clear) and a disturb,
  and the damage follows the constitution table: 4 at -4, 3 at -3 and -2, 2 at -1,
  1 at 0; 1 on turns divisible by 2 at 1 to 3, by 3 at 4 and 5, and on turns that are
  0 modulo 4 at 6, and 0 on the other turns.
\<close>

theorem poison_damage_schedule:
  assumes "1 < poisoned s"
  shows "log (playerUpdatePoisonedState con_adj turn s)
           = log s @ (if PY_POISONED AND status s = 0 then [Prt_poisoned] else [])
                   @ [Take_hit (poison_damage con_adj turn) ''poison'', Disturb 1 0]
       \<and> (con_adj = - 4 \<longrightarrow> poison_damage con_adj turn = 4)
       \<and> (con_adj = - 3 \<or> con_adj = - 2 \<longrightarrow> poison_damage con_adj turn = 3)
       \<and> (con_adj = - 1 \<longrightarrow> poison_damage con_adj turn = 2)
       \<and> (con_adj = 0 \<longrightarrow> poison_damage con_adj turn = 1)
       \<and> (1 \<le> con_adj \<and> con_adj \<le> 3 \<longrightarrow>
            poison_damage con_adj turn = (if 2 dvd turn then 1 else 0))
       \<and> (4 \<le> con_adj \<and> con_adj \<le> 5 \<longrightarrow>
            poison_damage con_adj turn = (if 3 dvd turn then 1 else 0))
       \<and> (con_adj = 6 \<longrightarrow> poison_damage con_adj turn = (if turn mod 4 = 0 then 1 else 0))"
proof -
  have l: "log (playerUpdatePoisonedState con_adj turn s)
           = log s @ (if PY_POISONED AND status s = 0 then [Prt_poisoned] else [])
                   @ [Take_hit (poison_damage con_adj turn) ''poison'', Disturb 1 0]"
    using assms by (simp add: playerUpdatePoisonedState_def poison_on_def poison_hit_def Let_def)
  have d: "(con_adj = - 4 \<longrightarrow> poison_damage con_adj turn = 4)
       \<and> (con_adj = - 3 \<or> con_adj = - 2 \<longrightarrow> poison_damage con_adj turn = 3)
       \<and> (con_adj = - 1 \<longrightarrow> poison_damage con_adj turn = 2)
       \<and> (con_adj = 0 \<longrightarrow> poison_damage con_adj turn = 1)
       \<and> (1 \<le> con_adj \<and> con_adj \<le> 3 \<longrightarrow>
            poison_damage con_adj turn = (if 2 dvd turn then 1 else 0))
       \<and> (4 \<le> con_adj \<and> con_adj \<le> 5 \<longrightarrow>
            poison_damage con_adj turn = (if 3 dvd turn then 1 else 0))
       \<and> (con_adj = 6 \<longrightarrow> poison_damage con_adj turn = (if turn mod 4 = 0 then 1 else 0))"
    by (auto simp: poison_damage_def smod_zero_iff_dvd mod_eq_0_iff_dvd)
  from l d show ?thesis by blast
qed

theorem poison_damage_schedule_witness:
  "1 < poisoned poisoned_player
   \<and> log (playerUpdatePoisonedState (- 4) 9 poisoned_player) = [Take_hit 4 ''poison'', Disturb 1 0]
   \<and> log (playerUpdatePoisonedState (- 3) 9 poisoned_player) = [Take_hit 3 ''poison'', Disturb 1 0]
   \<and> log (playerUpdatePoisonedState (- 1) 9 poisoned_player) = [Take_hit 2 ''poison'', Disturb 1 0]
   \<and> log (playerUpdatePoisonedState 0 9 poisoned_player) = [Take_hit 1 ''poison'', Disturb 1 0]
   \<and> log (playerUpdatePoisonedState 2 9 poisoned_player) = [Take_hit 0 ''poison'', Disturb 1 0]
   \<and> log (playerUpdatePoisonedState 2 10 poisoned_player) = [Take_hit 1 ''poison'', Disturb 1 0]
   \<and> log (playerUpdatePoisonedState 5 9 poisoned_player) = [Take_hit 1 ''poison'', Disturb 1 0]
   \<and> log (playerUpdatePoisonedState 6 8 poisoned_player) = [Take_hit 1 ''poison'', Disturb 1 0]
   \<and> log (playerUpdatePoisonedState 6 9 poisoned_player) = [Take_hit 0 ''poison'', Disturb 1 0]"
proof -
  have h: "1 < poisoned poisoned_player" by (simp add: poisoned_player_def player0_def)
  have m: "PY_POISONED AND status poisoned_player \<noteq> 0" "log poisoned_player = []"
    by (simp_all add: poisoned_player_def player0_def PY_POISONED_def)
  show ?thesis
    using h m poison_damage_schedule[OF h, of "- 4" 9] poison_damage_schedule[OF h, of "- 3" 9]
      poison_damage_schedule[OF h, of "- 1" 9] poison_damage_schedule[OF h, of 0 9]
      poison_damage_schedule[OF h, of 2 9] poison_damage_schedule[OF h, of 2 10]
      poison_damage_schedule[OF h, of 5 9] poison_damage_schedule[OF h, of 6 8]
      poison_damage_schedule[OF h, of 6 9]
    by simp
qed

section \<open>The keypress reader\<close>

lemma ctrl_R_code: "(of_char (CTRL_KEY (CHR ''R'')) :: int) = 18"
  by (simp add: CTRL_KEY_def)

lemma escape_not_ctrl_R: "ESCAPE \<noteq> CTRL_KEY (CHR ''R'')"
  by code_simp

lemma byte_not_ctrl_R:
  assumes "0 \<le> i" "i < 256" "i \<noteq> of_char (CTRL_KEY (CHR ''R''))"
  shows "char_of (i::int) \<noteq> CTRL_KEY (CHR ''R'')"
proof
  assume "char_of i = CTRL_KEY (CHR ''R'')"
  then have "(of_char (char_of i) :: int) = of_char (CTRL_KEY (CHR ''R''))" by simp
  then have "i mod 256 = of_char (CTRL_KEY (CHR ''R''))" by simp
  with assms show False by simp
qed

lemma inkey_eof_key: "returned_key (inkey_eof ok pending s) \<noteq> Some (CTRL_KEY (CHR ''R''))"
  by (simp add: inkey_eof_def returned_key_def Let_def escape_not_ctrl_R)

lemma inkey_eof_count: "command_count (session_of (inkey_eof ok pending s)) = command_count s"
  by (simp add: inkey_eof_def session_of_def Let_def)

lemma inkey_loop_key:
  "\<forall>i\<in>set input. i = EOF \<or> (0 \<le> i \<and> i < 256) \<Longrightarrow>
   returned_key (inkey_loop ok input s) \<noteq> Some (CTRL_KEY (CHR ''R''))"
proof (induction input arbitrary: s)
  case Nil
  show ?case by (simp add: returned_key_def)
next
  case (Cons i input)
  show ?case
  proof (cases "i = EOF")
    case True
    then show ?thesis by (simp add: inkey_eof_key)
  next
    case False
    with Cons.prems have b: "0 \<le> i" "i < 256" by auto
    show ?thesis
    proof (cases "i = of_char (CTRL_KEY (CHR ''R''))")
      case True
      with False Cons show ?thesis by simp
    next
      case F2: False
      with False byte_not_ctrl_R[OF b F2] show ?thesis by (simp add: returned_key_def)
    qed
  qed
qed

lemma inkey_loop_count:
  "command_count (session_of (inkey_loop ok input s)) = command_count s"
  by (induction input arbitrary: s) (simp_all add: inkey_eof_count, simp_all add: session_of_def)

text \<open>
  C10. \<open>inkey\<close> first sets \<open>command_count\<close> to 0, and nothing it does afterwards
  changes it; it never returns the CTRL-R code; a CTRL-R keypress is consumed, with a
  refresh of the screen and a reset of the terminal, and reading goes on with the
  next value. The values \<open>getch\<close> delivers are end-of-input or one byte: \<open>moriaterm\<close>
  switches the keypad translation off.
\<close>

theorem inkey_resets_count_and_hides_ctrl_R:
  assumes "\<forall>i\<in>set input. i = EOF \<or> (0 \<le> i \<and> i < 256)"
  shows "command_count (session_of (inkey save_ok input s)) = 0
       \<and> returned_key (inkey save_ok input s) \<noteq> Some (CTRL_KEY (CHR ''R''))
       \<and> inkey save_ok (of_char (CTRL_KEY (CHR ''R'')) # input) s
           = inkey_loop save_ok input
               (s\<lparr>command_count := 0, out := out s @ [Put_qio, Wrefresh_curscr, Moriaterm]\<rparr>)"
  using inkey_loop_key[OF assms] by (simp add: inkey_def inkey_loop_count ctrl_R_code EOF_def)

theorem inkey_resets_count_and_hides_ctrl_R_witness:
  "command_count (session_of (inkey True [18, 18, 65] (session0\<lparr>command_count := 7\<rparr>))) = 0
   \<and> returned_key (inkey True [18, 18, 65] (session0\<lparr>command_count := 7\<rparr>))
        \<noteq> Some (CTRL_KEY (CHR ''R''))
   \<and> returned_key (inkey True [18, 18, 65] (session0\<lparr>command_count := 7\<rparr>)) = Some (CHR ''A'')"
proof -
  have h: "\<forall>i\<in>set [18, 18, 65]. i = EOF \<or> (0 \<le> i \<and> i < (256::int))" by simp
  have k: "returned_key (inkey True [18, 18, 65] (session0\<lparr>command_count := 7\<rparr>)) = Some (CHR ''A'')"
    by code_simp
  from inkey_resets_count_and_hides_ctrl_R[OF h, of True "session0\<lparr>command_count := 7\<rparr>"] k
  show ?thesis by blast
qed

text \<open>
  C9, as stated: every end-of-input raises a disturb and returns ESCAPE, until the
  counter passes the threshold. It fails when no character has been generated: the
  first end-of-input ends the process, with no disturb and no key returned.
\<close>

theorem inkey_eof_counterexample:
  "eof_flag (session_of (inkey True [EOF] no_character)) \<le> 100
   \<and> returned_key (inkey True [EOF] no_character) = None
   \<and> out (session_of (inkey True [EOF] no_character)) = [Put_qio, Refresh]"
  by (simp add: inkey_def inkey_eof_def no_character_def session0_def session_of_def
        returned_key_def Let_def)

text \<open>
  C9, amended. Every end-of-input adds one to the counter. With a character
  generated and not yet saved: while the counter, after the increment, is at most
  100, a disturb is raised and ESCAPE is returned; once it exceeds 100, the disturb
  is followed by the panic save and the process ends. With no character generated,
  or with the character already saved, the process ends at the first end-of-input,
  without disturb or save.
\<close>

theorem inkey_end_of_input:
  "eof_flag (session_of (inkey save_ok (EOF # pending) s)) = eof_flag s + 1
   \<and> (character_generated s \<and> \<not> character_saved s \<and> eof_flag s + 1 \<le> 100 \<longrightarrow>
        inkey save_ok (EOF # pending) s
          = Returned ESCAPE pending
              (s\<lparr>command_count := 0, msg_flag := False, eof_flag := eof_flag s + 1,
                 out := out s @ [Put_qio, Refresh, Disturb 1 0]\<rparr>))
   \<and> (character_generated s \<and> \<not> character_saved s \<and> 100 < eof_flag s + 1 \<longrightarrow>
        returned_key (inkey save_ok (EOF # pending) s) = None
      \<and> panic_save (session_of (inkey save_ok (EOF # pending) s))
      \<and> out (session_of (inkey save_ok (EOF # pending) s))
          = out s @ [Put_qio, Refresh, Disturb 1 0, Save_char]
      \<and> (\<exists>s'. inkey save_ok (EOF # pending) s = Exited s'))
   \<and> (\<not> character_generated s \<or> character_saved s \<longrightarrow>
        inkey save_ok (EOF # pending) s
          = Exited (s\<lparr>command_count := 0, msg_flag := False, eof_flag := eof_flag s + 1,
                      out := out s @ [Put_qio, Refresh]\<rparr>))"
  by (simp add: inkey_def inkey_eof_def session_of_def returned_key_def Let_def)

theorem inkey_end_of_input_witness:
  "character_generated session0 \<and> \<not> character_saved session0 \<and> eof_flag session0 + 1 \<le> 100
   \<and> returned_key (inkey True [EOF] session0) = Some ESCAPE
   \<and> out (session_of (inkey True [EOF] session0)) = [Put_qio, Refresh, Disturb 1 0]
   \<and> character_generated at_threshold \<and> \<not> character_saved at_threshold
   \<and> 100 < eof_flag at_threshold + 1
   \<and> returned_key (inkey True [EOF] at_threshold) = None
   \<and> panic_save (session_of (inkey True [EOF] at_threshold))
   \<and> out (session_of (inkey True [EOF] at_threshold))
        = [Put_qio, Refresh, Disturb 1 0, Save_char]
   \<and> \<not> character_generated no_character
   \<and> out (session_of (inkey True [EOF] no_character)) = [Put_qio, Refresh]"
proof -
  have a: "character_generated session0" "\<not> character_saved session0"
    "eof_flag session0 + 1 \<le> 100" "out session0 = []"
    by (simp_all add: session0_def)
  have b: "character_generated at_threshold" "\<not> character_saved at_threshold"
    "100 < eof_flag at_threshold + 1" "out at_threshold = []"
    by (simp_all add: at_threshold_def session0_def)
  have c: "\<not> character_generated no_character" "out no_character = []"
    by (simp_all add: no_character_def session0_def)
  show ?thesis
    using a b c inkey_end_of_input[of True "[]" session0]
      inkey_end_of_input[of True "[]" at_threshold]
      inkey_end_of_input[of True "[]" no_character]
    by (simp add: returned_key_def session_of_def)
qed

section \<open>Repeat counts\<close>

lemma digit_value:
  assumes "CHR ''0'' \<le> c" "c \<le> CHR ''9''"
  shows "0 \<le> (of_char c :: int) - of_char (CHR ''0'')"
    and "(of_char c :: int) - of_char (CHR ''0'') \<le> 9"
proof -
  have "(48::nat) \<le> of_char c" "(of_char c :: nat) \<le> 57"
    using assms by (simp_all add: less_eq_char_def)
  moreover have "(of_char c :: int) = int (of_char c)" by (simp add: of_nat_of_char)
  ultimately show "0 \<le> (of_char c :: int) - of_char (CHR ''0'')"
    and "(of_char c :: int) - of_char (CHR ''0'') \<le> 9" by simp_all
qed

lemma digit_not_erase:
  assumes "CHR ''0'' \<le> c" "c \<le> CHR ''9''"
  shows "c \<noteq> DELETE" "c \<noteq> CTRL_KEY (CHR ''H'')"
proof -
  have d: "\<not> DELETE \<le> CHR ''9''" "\<not> CHR ''0'' \<le> CTRL_KEY (CHR ''H'')"
    by code_simp+
  from d assms show "c \<noteq> DELETE" "c \<noteq> CTRL_KEY (CHR ''H'')" by auto
qed

lemma sdiv_10_nonneg: "0 \<le> k \<Longrightarrow> k sdiv 10 = k div (10::int)"
  by (simp add: signed_divide_int_def sgn_if)

lemma count_key_digit:
  "CHR ''0'' \<le> c \<Longrightarrow> c \<le> CHR ''9'' \<Longrightarrow> counter \<le> 99 \<Longrightarrow>
   count_key counter ev c
     = Some (counter * 10 + of_char c - of_char (CHR ''0''),
             ev @ [PutNumber (counter * 10 + of_char c - of_char (CHR ''0'')) 0 14])"
  using digit_not_erase[of c] by (simp add: count_key_def)

lemma count_key_bell:
  "CHR ''0'' \<le> c \<Longrightarrow> c \<le> CHR ''9'' \<Longrightarrow> 99 < counter \<Longrightarrow>
   count_key counter ev c = Some (counter, ev @ [Bell])"
  using digit_not_erase[of c] by (simp add: count_key_def)

lemma count_key_erase:
  "c = DELETE \<or> c = CTRL_KEY (CHR ''H'') \<Longrightarrow> 0 \<le> counter \<Longrightarrow>
   count_key counter ev c = Some (counter div 10, ev @ [PutNumber (counter div 10) 0 14])"
  by (auto simp add: count_key_def sdiv_10_nonneg)

lemma count_key_bounds:
  assumes "0 \<le> counter" "counter \<le> 999" "count_key counter ev c = Some (n, ev')"
  shows "0 \<le> n \<and> n \<le> 999"
proof (cases "c = DELETE \<or> c = CTRL_KEY (CHR ''H'')")
  case True
  with assms count_key_erase[OF True assms(1), of ev] show ?thesis by auto
next
  case False
  with assms(3) have d: "CHR ''0'' \<le> c" "c \<le> CHR ''9''"
    by (auto simp: count_key_def split: if_splits)
  show ?thesis
  proof (cases "99 < counter")
    case True
    with assms count_key_bell[OF d True, of ev] show ?thesis by simp
  next
    case F: False
    then have "counter \<le> 99" by simp
    with assms count_key_digit[OF d this, of ev] digit_value[OF d] show ?thesis by auto
  qed
qed

lemma count_loop_bounds:
  "0 \<le> counter \<Longrightarrow> counter \<le> 999 \<Longrightarrow>
   0 \<le> fst (count_loop counter ev c ks) \<and> fst (count_loop counter ev c ks) \<le> 999"
proof (induction counter ev c ks rule: count_loop.induct)
  case (1 counter ev c ks)
  show ?case
  proof (cases "count_key counter ev c")
    case None
    with "1.prems" show ?thesis by simp
  next
    case (Some p)
    obtain n ev' where p: "p = (n, ev')" by (cases p)
    have b: "0 \<le> n" "n \<le> 999"
      using count_key_bounds[OF "1.prems", of ev c n ev'] Some p by auto
    show ?thesis
    proof (cases ks)
      case Nil
      with Some p b show ?thesis by simp
    next
      case (Cons k ks')
      from "1.IH"[OF Some p[symmetric] Cons b]
      show ?thesis using Some p Cons by simp
    qed
  qed
qed

lemma count_key_break:
  "c \<noteq> DELETE \<Longrightarrow> c \<noteq> CTRL_KEY (CHR ''H'') \<Longrightarrow> \<not> (CHR ''0'' \<le> c \<and> c \<le> CHR ''9'') \<Longrightarrow>
   count_key counter ev c = None"
  by (auto simp add: count_key_def)

lemma count_loop_break:
  "count_key counter ev c = None \<Longrightarrow> count_loop counter ev c ks = (counter, ev, c, ks)"
  by simp

lemma count_loop_next:
  "count_key counter ev c = Some (n, ev') \<Longrightarrow>
   count_loop counter ev c [] = (n, ev', ESCAPE, [])
   \<and> count_loop counter ev c (k # ks') = count_loop n ev' k ks'"
  by simp

lemma getRepeatCount_count:
  assumes "(rk \<and> CHR ''0'' \<le> c \<and> c \<le> CHR ''9'') \<or> (\<not> rk \<and> c = CHR ''#'')"
  shows "fst (getRepeatCount rk c ks ev)
     = (if fst (count_loop 0 (ev @ [PutString ''Repeat count:'' 0 0])
                  (if c = CHR ''#'' then CHR ''0'' else c) ks) = 0
        then 99
        else fst (count_loop 0 (ev @ [PutString ''Repeat count:'' 0 0])
                    (if c = CHR ''#'' then CHR ''0'' else c) ks))"
  using assms
  by (simp add: getRepeatCount_def Let_def split_beta del: count_loop.simps)

lemma getRepeatCount_range:
  assumes "(rk \<and> CHR ''0'' \<le> c \<and> c \<le> CHR ''9'') \<or> (\<not> rk \<and> c = CHR ''#'')"
  shows "1 \<le> fst (getRepeatCount rk c ks ev) \<and> fst (getRepeatCount rk c ks ev) \<le> 999"
proof -
  let ?r = "count_loop 0 (ev @ [PutString ''Repeat count:'' 0 0])
              (if c = CHR ''#'' then CHR ''0'' else c) ks"
  have b: "0 \<le> fst ?r \<and> fst ?r \<le> 999" by (rule count_loop_bounds) simp_all
  with getRepeatCount_count[OF assms, of ks ev] show ?thesis by auto
qed

lemma getRepeatCount_none:
  assumes "\<not> ((rk \<and> CHR ''0'' \<le> c \<and> c \<le> CHR ''9'') \<or> (\<not> rk \<and> c = CHR ''#''))"
  shows "getRepeatCount rk c ks ev = (0, c, ks, ev)"
  unfolding getRepeatCount_def by (rule if_not_P) (rule assms)

text \<open>
  C3, as stated: the count is capped at 99 and a digit beyond the cap rings the bell.
  It fails: the bell depends on the count before the digit is added, so ``1'', ``0'',
  ``0'' gives 100 without a bell, and ``9'', ``9'', ``9'' gives 999.
\<close>

theorem repeat_count_counterexample:
  "fst (getRepeatCount True (CHR ''1'') ''00h'' []) = 100
   \<and> Bell \<notin> set (snd (snd (snd (getRepeatCount True (CHR ''1'') ''00h'' []))))
   \<and> fst (getRepeatCount True (CHR ''9'') ''99h'' []) = 999"
  by code_simp

text \<open>
  C3, amended. In either key scheme (a digit opens the count under the roguelike
  keys, \<open>#\<close> under the original ones), a digit typed while the count is at most 99
  is appended in base 10, so that the count can reach 999 and no more; a digit typed
  while the count exceeds 99 rings the bell and leaves the count unchanged; backspace
  or DELETE replaces the count by \<open>count div 10\<close>; any other key ends the loop. The
  count handed on is the count the loop ends with, or 99 when that is zero, so it is
  between 1 and 999. ``0'' gives 99, ``1'', ``5'' gives 15, a backspace after ``15''
  gives 1, and a backspace after ``1'' gives 99.
\<close>

theorem repeat_count_parser:
  "(CHR ''0'' \<le> c \<and> c \<le> CHR ''9'' \<and> counter \<le> 99 \<longrightarrow>
      count_key counter ev c
        = Some (counter * 10 + of_char c - of_char (CHR ''0''),
                ev @ [PutNumber (counter * 10 + of_char c - of_char (CHR ''0'')) 0 14]))
   \<and> (CHR ''0'' \<le> c \<and> c \<le> CHR ''9'' \<and> 99 < counter \<longrightarrow>
      count_key counter ev c = Some (counter, ev @ [Bell]))
   \<and> ((c = DELETE \<or> c = CTRL_KEY (CHR ''H'')) \<and> 0 \<le> counter \<longrightarrow>
      count_key counter ev c
        = Some (counter div 10, ev @ [PutNumber (counter div 10) 0 14]))
   \<and> (c \<noteq> DELETE \<and> c \<noteq> CTRL_KEY (CHR ''H'') \<and> \<not> (CHR ''0'' \<le> c \<and> c \<le> CHR ''9'') \<longrightarrow>
      count_key counter ev c = None)
   \<and> (count_key counter ev c = None \<longrightarrow> count_loop counter ev c ks = (counter, ev, c, ks))
   \<and> (count_key counter ev c = Some (n, ev') \<longrightarrow>
        count_loop counter ev c [] = (n, ev', ESCAPE, [])
      \<and> count_loop counter ev c (k # ks') = count_loop n ev' k ks')
   \<and> ((rk \<and> CHR ''0'' \<le> c \<and> c \<le> CHR ''9'') \<or> (\<not> rk \<and> c = CHR ''#'') \<longrightarrow>
        fst (getRepeatCount rk c ks ev)
          = (if fst (count_loop 0 (ev @ [PutString ''Repeat count:'' 0 0])
                       (if c = CHR ''#'' then CHR ''0'' else c) ks) = 0
             then 99
             else fst (count_loop 0 (ev @ [PutString ''Repeat count:'' 0 0])
                         (if c = CHR ''#'' then CHR ''0'' else c) ks))
      \<and> 1 \<le> fst (getRepeatCount rk c ks ev) \<and> fst (getRepeatCount rk c ks ev) \<le> 999)
   \<and> (\<not> ((rk \<and> CHR ''0'' \<le> c \<and> c \<le> CHR ''9'') \<or> (\<not> rk \<and> c = CHR ''#'')) \<longrightarrow>
        getRepeatCount rk c ks ev = (0, c, ks, ev))
   \<and> fst (getRepeatCount True (CHR ''0'') ''h'' []) = 99
   \<and> fst (getRepeatCount True (CHR ''1'') ''5h'' []) = 15
   \<and> fst (getRepeatCount True (CHR ''1'') [CHR ''5'', DELETE, CHR ''h''] []) = 1
   \<and> fst (getRepeatCount True (CHR ''1'') [DELETE, CHR ''h''] []) = 99
   \<and> fst (getRepeatCount False (CHR ''#'') ''15h'' []) = 15
   \<and> fst (getRepeatCount False (CHR ''#'') ''h'' []) = 99"
proof -
  have e: "fst (getRepeatCount True (CHR ''0'') ''h'' []) = 99"
    "fst (getRepeatCount True (CHR ''1'') ''5h'' []) = 15"
    "fst (getRepeatCount True (CHR ''1'') [CHR ''5'', DELETE, CHR ''h''] []) = 1"
    "fst (getRepeatCount True (CHR ''1'') [DELETE, CHR ''h''] []) = 99"
    "fst (getRepeatCount False (CHR ''#'') ''15h'' []) = 15"
    "fst (getRepeatCount False (CHR ''#'') ''h'' []) = 99"
    by code_simp+
  have 1: "CHR ''0'' \<le> c \<and> c \<le> CHR ''9'' \<and> counter \<le> 99 \<longrightarrow>
      count_key counter ev c
        = Some (counter * 10 + of_char c - of_char (CHR ''0''),
                ev @ [PutNumber (counter * 10 + of_char c - of_char (CHR ''0'')) 0 14])"
    using count_key_digit[of c counter ev] by blast
  have 2: "CHR ''0'' \<le> c \<and> c \<le> CHR ''9'' \<and> 99 < counter \<longrightarrow>
      count_key counter ev c = Some (counter, ev @ [Bell])"
    using count_key_bell[of c counter ev] by blast
  have 3: "(c = DELETE \<or> c = CTRL_KEY (CHR ''H'')) \<and> 0 \<le> counter \<longrightarrow>
      count_key counter ev c
        = Some (counter div 10, ev @ [PutNumber (counter div 10) 0 14])"
    using count_key_erase[of c counter ev] by blast
  have 4: "c \<noteq> DELETE \<and> c \<noteq> CTRL_KEY (CHR ''H'') \<and> \<not> (CHR ''0'' \<le> c \<and> c \<le> CHR ''9'') \<longrightarrow>
      count_key counter ev c = None"
    using count_key_break[of c counter ev] by blast
  have 5: "count_key counter ev c = None \<longrightarrow> count_loop counter ev c ks = (counter, ev, c, ks)"
    using count_loop_break[of counter ev c ks] by blast
  have 6: "count_key counter ev c = Some (n, ev') \<longrightarrow>
        count_loop counter ev c [] = (n, ev', ESCAPE, [])
      \<and> count_loop counter ev c (k # ks') = count_loop n ev' k ks'"
    using count_loop_next[of counter ev c n ev' k ks'] by blast
  have 7: "(rk \<and> CHR ''0'' \<le> c \<and> c \<le> CHR ''9'') \<or> (\<not> rk \<and> c = CHR ''#'') \<longrightarrow>
        fst (getRepeatCount rk c ks ev)
          = (if fst (count_loop 0 (ev @ [PutString ''Repeat count:'' 0 0])
                       (if c = CHR ''#'' then CHR ''0'' else c) ks) = 0
             then 99
             else fst (count_loop 0 (ev @ [PutString ''Repeat count:'' 0 0])
                         (if c = CHR ''#'' then CHR ''0'' else c) ks))
      \<and> 1 \<le> fst (getRepeatCount rk c ks ev) \<and> fst (getRepeatCount rk c ks ev) \<le> 999"
    using getRepeatCount_count[of rk c ks ev] getRepeatCount_range[of rk c ks ev] by blast
  have 8: "\<not> ((rk \<and> CHR ''0'' \<le> c \<and> c \<le> CHR ''9'') \<or> (\<not> rk \<and> c = CHR ''#'')) \<longrightarrow>
        getRepeatCount rk c ks ev = (0, c, ks, ev)"
    using getRepeatCount_none[of rk c ks ev] by blast
  from 1 2 3 4 5 6 7 8 e show ?thesis by blast
qed

theorem repeat_count_parser_witness:
  "CHR ''0'' \<le> CHR ''5'' \<and> CHR ''5'' \<le> CHR ''9'' \<and> (1::int) \<le> 99
   \<and> count_key 1 [] (CHR ''5'') = Some (15, [PutNumber 15 0 14])
   \<and> (99::int) < 150
   \<and> count_key 150 [] (CHR ''5'') = Some (150, [Bell])
   \<and> (0::int) \<le> 15
   \<and> count_key 15 [] DELETE = Some (1, [PutNumber 1 0 14])
   \<and> count_key 15 [] (CHR ''h'') = None
   \<and> count_loop 15 [] (CHR ''h'') ''x'' = (15, [], CHR ''h'', ''x'')
   \<and> count_loop 1 [] (CHR ''5'') ''h'' = (15, [PutNumber 15 0 14], CHR ''h'', [])
   \<and> 1 \<le> fst (getRepeatCount True (CHR ''5'') ''7k'' [])
   \<and> 1 \<le> fst (getRepeatCount False (CHR ''#'') ''7k'' [])
   \<and> getRepeatCount False (CHR ''5'') ''7k'' [] = (0, CHR ''5'', ''7k'', [])"
proof -
  have d: "CHR ''0'' \<le> CHR ''5''" "CHR ''5'' \<le> CHR ''9''"
    "CHR ''h'' \<noteq> DELETE" "CHR ''h'' \<noteq> CTRL_KEY (CHR ''H'')" "\<not> CHR ''h'' \<le> CHR ''9''"
    "CHR ''5'' \<noteq> CHR ''#''"
    by code_simp+
  have k: "count_key 1 [] (CHR ''5'') = Some (15, [PutNumber 15 0 14])"
    using d repeat_count_parser[of "CHR ''5''" 1 "[]" "''h''" 15 "[PutNumber 15 0 14]" "CHR ''h''" "[]" True]
    by simp
  have b: "count_key 15 [] (CHR ''h'') = None"
    using d repeat_count_parser[of "CHR ''h''" 15 "[]" "''x''" 0 "[]" "CHR ''h''" "[]" True]
    by blast
  have l1: "count_loop 15 [] (CHR ''h'') ''x'' = (15, [], CHR ''h'', ''x'')"
    using b repeat_count_parser[of "CHR ''h''" 15 "[]" "''x''" 0 "[]" "CHR ''h''" "[]" True]
    by blast
  have l0: "count_loop 15 [PutNumber 15 0 14] (CHR ''h'') [] = (15, [PutNumber 15 0 14], CHR ''h'', [])"
    using d repeat_count_parser[of "CHR ''h''" 15 "[PutNumber 15 0 14]" "[]" 0 "[]" "CHR ''h''" "[]" True]
    by blast
  have l2: "count_loop 1 [] (CHR ''5'') ''h'' = (15, [PutNumber 15 0 14], CHR ''h'', [])"
    using k l0 repeat_count_parser[of "CHR ''5''" 1 "[]" "''h''" 15 "[PutNumber 15 0 14]" "CHR ''h''" "[]" True]
    by simp
  show ?thesis
    using d k b l1 l2
      repeat_count_parser[of "CHR ''5''" 150 "[]" "''7k''" 0 "[]" "CHR ''h''" "[]" True]
      repeat_count_parser[of DELETE 15 "[]" "''7k''" 0 "[]" "CHR ''h''" "[]" True]
      repeat_count_parser[of "CHR ''#''" 15 "[]" "''7k''" 0 "[]" "CHR ''h''" "[]" False]
      repeat_count_parser[of "CHR ''5''" 15 "[]" "''7k''" 0 "[]" "CHR ''h''" "[]" False]
    by simp
qed


lemma allow_list_forbidden:
  "\<not> valid_countcommand (CHR ''Q'')" "\<not> valid_countcommand (CTRL_KEY (CHR ''X''))"
  "\<not> valid_countcommand (CHR ''?'')" "\<not> valid_countcommand (CHR ''v'')"
  "\<not> valid_countcommand (CHR ''d'')" "\<not> valid_countcommand (CHR ''e'')"
  "\<not> valid_countcommand (CHR ''i'')" "\<not> valid_countcommand (CHR ''T'')"
  "\<not> valid_countcommand (CHR ''w'')" "\<not> valid_countcommand (CHR ''X'')"
  by code_simp+

lemma allow_list_permitted:
  "valid_countcommand (CHR ''b'')" "valid_countcommand (CHR ''j'')"
  "valid_countcommand (CHR ''n'')" "valid_countcommand (CHR ''h'')"
  "valid_countcommand (CHR ''l'')" "valid_countcommand (CHR ''y'')"
  "valid_countcommand (CHR ''k'')" "valid_countcommand (CHR ''u'')"
  "valid_countcommand (CHR ''s'')" "valid_countcommand (CHR ''R'')"
  by code_simp+

lemma space_is_free: "do_command handler (CHR '' '') s
    = s\<lparr>player_free_turn := True, last_command := CHR '' ''\<rparr>"
  by (simp add: do_command_def)

text \<open>
  C8, as stated: the allow-list permits counts on most inventory actions. It permits
  them on none: drop, equipment list, inventory list, take off, wear and exchange
  are all refused a count.
\<close>

theorem count_allow_list_counterexample:
  "\<not> valid_countcommand (CHR ''d'') \<and> \<not> valid_countcommand (CHR ''e'')
   \<and> \<not> valid_countcommand (CHR ''i'') \<and> \<not> valid_countcommand (CHR ''T'')
   \<and> \<not> valid_countcommand (CHR ''w'') \<and> \<not> valid_countcommand (CHR ''X'')"
  by code_simp

text \<open>
  C8, amended. A command typed with a positive count that \<open>valid_countcommand\<close> does
  not accept is replaced by the no-op space, with the message ``Invalid command with
  a count.'' and a free turn, and no count is installed: the pass ends with
  \<open>command_count\<close> 0. An accepted command gets the count installed. The list refuses
  a count to quit, save, help and version and to every inventory action (\<open>d\<close>, \<open>e\<close>,
  \<open>i\<close>, \<open>T\<close>, \<open>w\<close>, \<open>X\<close>); it accepts one on the eight moves, on searching and on
  resting.
\<close>

theorem count_rejected_for_ineligible_command:
  "(0 < counter \<and> \<not> valid_countcommand c \<longrightarrow>
      fst (check_count counter c s) = CHR '' ''
    \<and> player_free_turn (snd (check_count counter c s))
    \<and> command_count (snd (check_count counter c s)) = command_count s
    \<and> out (snd (check_count counter c s)) = out s @ [Msg ''Invalid command with a count.''])
   \<and> (0 < counter \<and> \<not> valid_countcommand c \<and> running_counter s = 0 \<longrightarrow>
      fst (dispatch_counted handler counter c s) = CHR '' ''
    \<and> player_free_turn (snd (dispatch_counted handler counter c s))
    \<and> command_count (snd (dispatch_counted handler counter c s)) = 0
    \<and> out (snd (dispatch_counted handler counter c s))
         = out s @ [Msg ''Invalid command with a count.''])
   \<and> (0 < counter \<and> valid_countcommand c \<longrightarrow>
      fst (check_count counter c s) = c
    \<and> command_count (snd (check_count counter c s)) = counter)
   \<and> \<not> valid_countcommand (CHR ''Q'') \<and> \<not> valid_countcommand (CTRL_KEY (CHR ''X''))
   \<and> \<not> valid_countcommand (CHR ''?'') \<and> \<not> valid_countcommand (CHR ''v'')
   \<and> valid_countcommand (CHR ''b'') \<and> valid_countcommand (CHR ''j'')
   \<and> valid_countcommand (CHR ''n'') \<and> valid_countcommand (CHR ''h'')
   \<and> valid_countcommand (CHR ''l'') \<and> valid_countcommand (CHR ''y'')
   \<and> valid_countcommand (CHR ''k'') \<and> valid_countcommand (CHR ''u'')
   \<and> valid_countcommand (CHR ''s'') \<and> valid_countcommand (CHR ''R'')
   \<and> \<not> valid_countcommand (CHR ''d'') \<and> \<not> valid_countcommand (CHR ''e'')
   \<and> \<not> valid_countcommand (CHR ''i'') \<and> \<not> valid_countcommand (CHR ''T'')
   \<and> \<not> valid_countcommand (CHR ''w'') \<and> \<not> valid_countcommand (CHR ''X'')"
proof -
  have 1: "0 < counter \<and> \<not> valid_countcommand c \<longrightarrow>
      fst (check_count counter c s) = CHR '' ''
    \<and> player_free_turn (snd (check_count counter c s))
    \<and> command_count (snd (check_count counter c s)) = command_count s
    \<and> out (snd (check_count counter c s)) = out s @ [Msg ''Invalid command with a count.'']"
    by (simp add: check_count_def)
  have 2: "0 < counter \<and> \<not> valid_countcommand c \<and> running_counter s = 0 \<longrightarrow>
      fst (dispatch_counted handler counter c s) = CHR '' ''
    \<and> player_free_turn (snd (dispatch_counted handler counter c s))
    \<and> command_count (snd (dispatch_counted handler counter c s)) = 0
    \<and> out (snd (dispatch_counted handler counter c s))
         = out s @ [Msg ''Invalid command with a count.'']"
    by (simp add: dispatch_counted_def check_count_def space_is_free count_after_command_def)
  have 3: "0 < counter \<and> valid_countcommand c \<longrightarrow>
      fst (check_count counter c s) = c
    \<and> command_count (snd (check_count counter c s)) = counter"
    by (simp add: check_count_def)
  from 1 2 3 allow_list_forbidden allow_list_permitted show ?thesis by blast
qed

theorem count_rejected_for_ineligible_command_witness:
  "(0::int) < 5 \<and> \<not> valid_countcommand (CHR ''i'') \<and> running_counter session0 = 0
   \<and> fst (dispatch_counted (\<lambda>c s. s) 5 (CHR ''i'') session0) = CHR '' ''
   \<and> player_free_turn (snd (dispatch_counted (\<lambda>c s. s) 5 (CHR ''i'') session0))
   \<and> command_count (snd (dispatch_counted (\<lambda>c s. s) 5 (CHR ''i'') session0)) = 0
   \<and> out (snd (dispatch_counted (\<lambda>c s. s) 5 (CHR ''i'') session0))
        = [Msg ''Invalid command with a count.'']
   \<and> valid_countcommand (CHR ''h'')
   \<and> fst (check_count 5 (CHR ''h'') session0) = CHR ''h''
   \<and> command_count (snd (check_count 5 (CHR ''h'') session0)) = 5"
proof -
  have a: "running_counter session0 = 0" "out session0 = []" by (simp_all add: session0_def)
  show ?thesis
    using a count_rejected_for_ineligible_command[of 5 "CHR ''i''" session0 "\<lambda>c s. s"]
      count_rejected_for_ineligible_command[of 5 "CHR ''h''" session0 "\<lambda>c s. s"]
    by simp
qed

end
